theory Spec2Isabelle
  imports Complex_Main "HOL-Library.Sublist"
begin

section \<open>JavaScript values\<close>

text \<open>
  A JavaScript number is an IEEE double. The model keeps the three special values the
  arithmetic of \<^verbatim>\<open>snapText.js\<close> can produce (NaN and the two infinities) and
  represents every finite double by the real it denotes. Rounding, overflow and
  underflow of finite results are not modelled (a product of non-zero numbers is never
  zero here), and the two zeros are identified (the single zero stands for +0, which
  only matters for the sign of a division by zero).
\<close>

datatype number = NaN | NegInf | PosInf | Finite real

definition signed_inf :: "bool \<Rightarrow> number" where
  "signed_inf positive = (if positive then PosInf else NegInf)"

fun num_add :: "number \<Rightarrow> number \<Rightarrow> number" where
  "num_add (Finite a) (Finite b) = Finite (a + b)"
| "num_add NaN _ = NaN"
| "num_add _ NaN = NaN"
| "num_add PosInf NegInf = NaN"
| "num_add NegInf PosInf = NaN"
| "num_add PosInf _ = PosInf"
| "num_add _ PosInf = PosInf"
| "num_add NegInf _ = NegInf"
| "num_add _ NegInf = NegInf"

fun num_neg :: "number \<Rightarrow> number" where
  "num_neg (Finite a) = Finite (- a)"
| "num_neg NaN = NaN"
| "num_neg PosInf = NegInf"
| "num_neg NegInf = PosInf"

definition num_sub :: "number \<Rightarrow> number \<Rightarrow> number" where
  "num_sub a b = num_add a (num_neg b)"

fun num_mul :: "number \<Rightarrow> number \<Rightarrow> number" where
  "num_mul (Finite a) (Finite b) = Finite (a * b)"
| "num_mul NaN _ = NaN"
| "num_mul _ NaN = NaN"
| "num_mul PosInf (Finite b) = (if b = 0 then NaN else signed_inf (0 < b))"
| "num_mul NegInf (Finite b) = (if b = 0 then NaN else signed_inf (b < 0))"
| "num_mul (Finite a) PosInf = (if a = 0 then NaN else signed_inf (0 < a))"
| "num_mul (Finite a) NegInf = (if a = 0 then NaN else signed_inf (a < 0))"
| "num_mul PosInf PosInf = PosInf"
| "num_mul NegInf NegInf = PosInf"
| "num_mul PosInf NegInf = NegInf"
| "num_mul NegInf PosInf = NegInf"

fun num_div :: "number \<Rightarrow> number \<Rightarrow> number" where
  "num_div (Finite a) (Finite b) =
     (if b = 0 then (if a = 0 then NaN else signed_inf (0 < a)) else Finite (a / b))"
| "num_div NaN _ = NaN"
| "num_div _ NaN = NaN"
| "num_div (Finite a) _ = Finite 0"
| "num_div PosInf (Finite b) = signed_inf (0 \<le> b)"
| "num_div NegInf (Finite b) = signed_inf (b < 0)"
| "num_div _ _ = NaN"

text \<open>The comparison \<^verbatim>\<open>a < b\<close>: false as soon as one side is NaN.\<close>

fun num_lt :: "number \<Rightarrow> number \<Rightarrow> bool" where
  "num_lt (Finite a) (Finite b) = (a < b)"
| "num_lt NaN _ = False"
| "num_lt _ NaN = False"
| "num_lt _ NegInf = False"
| "num_lt PosInf _ = False"
| "num_lt NegInf _ = True"
| "num_lt _ PosInf = True"

definition num_gt :: "number \<Rightarrow> number \<Rightarrow> bool" where
  "num_gt a b = num_lt b a"

text \<open>\<^verbatim>\<open>Math.min(a, b)\<close>: NaN when an argument is NaN.\<close>

definition Math_min :: "number \<Rightarrow> number \<Rightarrow> number" where
  "Math_min a b =
     (if a = NaN \<or> b = NaN then NaN else if num_lt b a then b else a)"

text \<open>
  Truthiness of a number, and of an optional number (\<^verbatim>\<open>undefined\<close> is \<open>None\<close>);
  \<^verbatim>\<open>undefined\<close> in arithmetic converts to NaN.
\<close>

fun truthy :: "number \<Rightarrow> bool" where
  "truthy (Finite a) = (a \<noteq> 0)"
| "truthy NaN = False"
| "truthy _ = True"

fun truthy_opt :: "number option \<Rightarrow> bool" where
  "truthy_opt None = False"
| "truthy_opt (Some a) = truthy a"

fun to_number :: "number option \<Rightarrow> number" where
  "to_number None = NaN"
| "to_number (Some a) = a"

definition MAX_SAFE_INTEGER :: number where
  "MAX_SAFE_INTEGER = Finite 9007199254740991"

text \<open>
  A string is a list of characters, one per UTF-16 code unit; the model covers the code
  units below 256. \<^verbatim>\<open>String.prototype.trim\<close> removes white space and line
  terminators at both ends; of those, the ones below 256 are listed here.
\<close>

definition is_white_space :: "char \<Rightarrow> bool" where
  "is_white_space c = (c \<in> set [CHR 0x09, CHR 0x0A, CHR 0x0B, CHR 0x0C, CHR 0x0D, CHR 0x20, CHR 0xA0])"

definition trim :: "string \<Rightarrow> string" where
  "trim s = rev (dropWhile is_white_space (rev (dropWhile is_white_space s)))"

text \<open>\<^verbatim>\<open>Array.prototype.join\<close>.\<close>

fun join :: "string \<Rightarrow> string list \<Rightarrow> string" where
  "join sep [] = []"
| "join sep [s] = s"
| "join sep (s # t # ss) = s @ sep @ join sep (t # ss)"

text \<open>The decimal digits of a counter, as \<^verbatim>\<open>'s' + classCounter\<close> prints them.\<close>

fun string_of_nat :: "nat \<Rightarrow> string" where
  "string_of_nat n =
     (if n < 10 then [''0123456789'' ! n]
      else string_of_nat (n div 10) @ [''0123456789'' ! (n mod 10)])"

text \<open>
  \<^verbatim>\<open>str.replace(/c/g, rep)\<close> for a pattern of one literal character and a replacement
  without \<^verbatim>\<open>$\<close>: every occurrence of the character is replaced, left to right.
\<close>

definition replace_all :: "char \<Rightarrow> string \<Rightarrow> string \<Rightarrow> string" where
  "replace_all c rep s = concat (map (\<lambda>d. if d = c then rep else [d]) s)"

text \<open>
  \<^verbatim>\<open>/p1|p2|.../.test(s)\<close> for literal alternatives: the pattern is not anchored, so
  it matches when an alternative occurs anywhere in the string.
\<close>

fun occurs_in :: "string \<Rightarrow> string \<Rightarrow> bool" where
  "occurs_in p [] = (p = [])"
| "occurs_in p (c # cs) = (prefix p (c # cs) \<or> occurs_in p cs)"

section \<open>Data model\<close>

text \<open>A \<^verbatim>\<open>DOMRect\<close> as the code reads it, and the \<^verbatim>\<open>Shape\<close> typedef.\<close>

record rect =
  rect_x :: number
  rect_y :: number
  rect_width :: number
  rect_height :: number

record shape =
  shape_x :: number
  shape_y :: number
  shape_width :: number
  shape_height :: number
  shape_text :: string
  shape_styles :: "(string \<times> string) list"

text \<open>
  The line objects \<^verbatim>\<open>{ rect, text }\<close> of \<^verbatim>\<open>getTextNodeLines\<close>; the rectangle is
  \<^verbatim>\<open>undefined\<close> (\<open>None\<close>) when the rectangle list has no entry at the line's index.
\<close>

record line =
  line_rect :: "rect option"
  line_text :: string

text \<open>
  A DOM node, with what the code asks of it: \<^verbatim>\<open>nodeType\<close>, \<^verbatim>\<open>nodeValue\<close>,
  \<^verbatim>\<open>childNodes\<close>, its bounding rectangle, the computed style of its parent
  (\<open>parentNode\<close> is \<open>None\<close> for a node without a parent, otherwise the parent's
  \<^verbatim>\<open>getPropertyValue\<close>), and the layout engine's answer for a range over the node's
  contents: \<open>getClientRects n e\<close> is \<^verbatim>\<open>range.getClientRects()\<close> after
  \<^verbatim>\<open>range.setStart(n, 0); range.setEnd(n, e)\<close>.
\<close>

datatype node = Node
  (nodeType: nat)
  (nodeValue: "string option")
  (parentNode: "(string \<Rightarrow> string) option")
  (getClientRects: "nat \<Rightarrow> rect list")
  (getBoundingClientRect: rect)
  (childNodes: "node list")

text \<open>What the code throws: three messages of its own, and the engine's TypeError.\<close>

datatype error =
  NeedSelectorOrElement
| NoElementFound string
| InvalidFormat string
| TypeError

fun sequence :: "(error + 'a) list \<Rightarrow> error + 'a list" where
  "sequence [] = Inr []"
| "sequence (Inl e # _) = Inl e"
| "sequence (Inr v # rs) = (case sequence rs of Inl e \<Rightarrow> Inl e | Inr vs \<Rightarrow> Inr (v # vs))"

section \<open>Shape styles\<close>

definition RelevantShapeStyles :: "(string \<times> string) list" where
  "RelevantShapeStyles =
     [(''color'', ''rgba(0, 0, 0, 0)''),
      (''background-color'', ''rgba(0, 0, 0, 0)''),
      (''font-size'', ''0px''),
      (''font-family'', ''sans-serif''),
      (''font-weight'', ''400''),
      (''font-style'', ''normal''),
      (''font-variant'', ''normal'')]"

text \<open>
  The \<^verbatim>\<open>styles\<close> field of \<^verbatim>\<open>toShape\<close>: the map returns \<^verbatim>\<open>undefined\<close> for an
  ignored value and the pair otherwise, and \<^verbatim>\<open>filter(Boolean)\<close> drops the former.
\<close>

definition toShape_styles :: "(string \<Rightarrow> string) \<Rightarrow> (string \<times> string) list" where
  "toShape_styles style =
     List.map_filter
       (\<lambda>(prop, valueToIgnore).
          let v = style prop in if v = valueToIgnore then None else Some (prop, v))
       RelevantShapeStyles"

text \<open>Reading \<^verbatim>\<open>rect.x\<close> of an undefined rectangle throws a TypeError.\<close>

definition toShape :: "rect option \<Rightarrow> (string \<Rightarrow> string) \<Rightarrow> string \<Rightarrow> error + shape" where
  "toShape r style txt =
     (case r of
        None \<Rightarrow> Inl TypeError
      | Some rc \<Rightarrow>
          Inr \<lparr>shape_x = rect_x rc, shape_y = rect_y rc,
               shape_width = rect_width rc, shape_height = rect_height rc,
               shape_text = txt, shape_styles = toShape_styles style\<rparr>)"

section \<open>Encoding text\<close>

definition encodeSvgText :: "string \<Rightarrow> string" where
  "encodeSvgText str =
     replace_all (CHR ''>'') ''&gt;''
       (replace_all (CHR ''<'') ''&lt;''
         (replace_all (CHR '' '') ''&#160;''
           (replace_all (CHR ''#'') ''%23''
             (replace_all (CHR ''%'') ''%25''
               (replace_all (CHR ''&'') ''&amp;'' str)))))"

section \<open>Probing the lines of a text node\<close>

text \<open>
  One round of the loop of \<^verbatim>\<open>getTextNodeLines\<close>, for the line index and the
  character at hand. \<^verbatim>\<open>lines[lineIndex]\<close> is \<^verbatim>\<open>undefined\<close> when the index is
  negative or not below the length; an empty string is falsy as well. A new line is
  pushed at the end of the array, whatever the index is.
\<close>

definition add_char :: "string list \<Rightarrow> int \<Rightarrow> char \<Rightarrow> string list" where
  "add_char lines lineIndex c =
     (if 0 \<le> lineIndex \<and> lineIndex < int (length lines) \<and> lines ! nat lineIndex \<noteq> []
      then lines[nat lineIndex := lines ! nat lineIndex @ [c]]
      else lines @ [[c]])"

definition probe_lines :: "(nat \<Rightarrow> rect list) \<Rightarrow> string \<Rightarrow> nat \<Rightarrow> string list" where
  "probe_lines rects txt n =
     fold (\<lambda>i lines. add_char lines (int (length (rects (i + 1))) - 1) (txt ! i)) [0..<n] []"

text \<open>\<^verbatim>\<open>clientRects[index]\<close>: \<^verbatim>\<open>undefined\<close> out of range.\<close>

definition item :: "'a list \<Rightarrow> nat \<Rightarrow> 'a option" where
  "item xs i = (if i < length xs then Some (xs ! i) else None)"

text \<open>
  The rectangles merged with the lines are those of the range as the last round of the
  loop left it, ending at \<^verbatim>\<open>textLength\<close>.
\<close>

definition getTextNodeLines :: "node \<Rightarrow> line list" where
  "getTextNodeLines textNode =
     (case nodeValue textNode of
        None \<Rightarrow> []
      | Some txt \<Rightarrow>
          if txt = [] then []
          else
            let textLength = length txt;
                lines = probe_lines (getClientRects textNode) txt textLength;
                clientRects = getClientRects textNode textLength
            in map (\<lambda>(index, ln). \<lparr>line_rect = item clientRects index, line_text = ln\<rparr>)
                 (zip [0..<length lines] lines))"

definition getTextShapes :: "node \<Rightarrow> error + shape list" where
  "getTextShapes textNode =
     (case nodeValue textNode of
        None \<Rightarrow> Inr []
      | Some v \<Rightarrow>
          (case parentNode textNode of
             None \<Rightarrow> Inr []
           | Some computedStyle \<Rightarrow>
               if v = [] then Inr []
               else if trim v = [] then Inr []
               else
                 sequence
                   (map (\<lambda>ln. toShape (line_rect ln) computedStyle (line_text ln))
                      (filter (\<lambda>ln. 0 < length (trim (line_text ln)))
                         (getTextNodeLines textNode)))))"

definition getShape :: "node \<Rightarrow> rect \<Rightarrow> error + shape list" where
  "getShape element offset =
     (if nodeType element \<noteq> 3 then Inr []
      else
        (case getTextShapes element of
           Inl e \<Rightarrow> Inl e
         | Inr shapes \<Rightarrow>
             Inr (map (\<lambda>s. s\<lparr>shape_x := num_sub (shape_x s) (rect_x offset),
                              shape_y := num_sub (shape_y s) (rect_y offset)\<rparr>) shapes)))"

fun getShapes :: "node \<Rightarrow> rect \<Rightarrow> error + shape list" where
  "getShapes (Node ty v p cr br nodes) offset =
     (case getShape (Node ty v p cr br nodes) offset of
        Inl e \<Rightarrow> Inl e
      | Inr own \<Rightarrow>
          (case sequence (map (\<lambda>n. getShapes n offset) nodes) of
             Inl e \<Rightarrow> Inl e
           | Inr below \<Rightarrow> Inr (own @ concat below)))"

section \<open>Normalising and measuring shapes\<close>

definition normalizeShapes :: "shape list \<Rightarrow> shape list" where
  "normalizeShapes shapes =
     (let (l, t) =
            fold (\<lambda>s (l, t). (if num_lt (shape_x s) l then shape_x s else l,
                               if num_lt (shape_y s) t then shape_y s else t))
              shapes (MAX_SAFE_INTEGER, MAX_SAFE_INTEGER)
      in map (\<lambda>s. s\<lparr>shape_x := num_sub (shape_x s) l, shape_y := num_sub (shape_y s) t\<rparr>) shapes)"

text \<open>The four running extremes of \<^verbatim>\<open>getSizeFromShapes\<close>, as (l, t, r, b).\<close>

definition size_step :: "shape \<Rightarrow> number \<times> number \<times> number \<times> number \<Rightarrow> number \<times> number \<times> number \<times> number" where
  "size_step s = (\<lambda>(l, t, r, b).
     (if num_lt (shape_x s) l then shape_x s else l,
      if num_lt (shape_y s) t then shape_y s else t,
      if num_gt (num_add (shape_x s) (shape_width s)) r then num_add (shape_x s) (shape_width s) else r,
      if num_gt (num_add (shape_y s) (shape_height s)) b then num_add (shape_y s) (shape_height s) else b))"

definition getSizeFromShapes :: "shape list \<Rightarrow> number \<times> number" where
  "getSizeFromShapes shapes =
     (let (l, t, r, b) = fold size_step shapes (MAX_SAFE_INTEGER, MAX_SAFE_INTEGER, Finite 0, Finite 0)
      in (num_sub r l, num_sub b t))"

section \<open>From shapes to the SVG document\<close>

text \<open>
  The object \<^verbatim>\<open>CssSvgMap\<close> as a map of its own properties (a lookup of a name that
  \<^verbatim>\<open>Object.prototype\<close> defines is not modelled; no registered style has such a name).
\<close>

definition CssSvgMap :: "string \<rightharpoonup> string" where
  "CssSvgMap = [''color'' \<mapsto> ''fill'']"

text \<open>
  The document \<^verbatim>\<open>shapesToSvg\<close> returns is a template string; the model keeps the
  values the template interpolates, numbers as numbers: the \<^verbatim>\<open>width\<close> and
  \<^verbatim>\<open>height\<close> attributes, the four entries of \<^verbatim>\<open>viewBox\<close> (the last two print
  \<^verbatim>\<open>undefined\<close> when the variable was never assigned), the style sheet, the
  translation and scale of the group, and one entry per \<^verbatim>\<open><text>\<close> element.
\<close>

record text_node =
  text_x :: number
  text_y :: number
  text_class :: string
  text_content :: string

record svg =
  svg_width :: number
  svg_height :: number
  viewBox_x :: number
  viewBox_y :: number
  viewBox_width :: "number option"
  viewBox_height :: "number option"
  style_text :: string
  translate :: number
  scale :: number
  text_nodes :: "text_node list"

text \<open>Lines 286 and 287: the two assignments to \<^verbatim>\<open>padding\<close>, in order.\<close>

definition clamp_padding :: "number option \<Rightarrow> number option \<Rightarrow> number \<Rightarrow> number" where
  "clamp_padding width height padding =
     (let padding1 =
            (if truthy_opt width \<and> truthy padding
             then Math_min padding (num_mul (to_number width) (Finite 0.5)) else padding)
      in if truthy_opt height \<and> truthy padding1
         then Math_min padding1 (num_mul (to_number height) (Finite 0.5)) else padding1)"

text \<open>
  Lines 293 to 320: the output size and the content scale, from the content size, the
  requested size and the doubled padding. \<^verbatim>\<open>typeof width === 'number'\<close> holds for
  every number, zero and NaN included; the inner tests are truthiness tests, and when
  none of the three holds both variables stay as they were.
\<close>

definition resolve_size ::
  "number \<times> number \<Rightarrow> number option \<Rightarrow> number option \<Rightarrow> number
     \<Rightarrow> number option \<times> number option \<times> number" where
  "resolve_size contentSize width height paddingDouble =
     (if width \<noteq> None \<or> height \<noteq> None then
        let aspectRatio = num_div (fst contentSize) (snd contentSize) in
        if truthy_opt width \<and> \<not> truthy_opt height then
          (width,
           Some (num_add (num_div (num_sub (to_number width) paddingDouble) aspectRatio) paddingDouble),
           num_div (num_sub (to_number width) paddingDouble) (fst contentSize))
        else if truthy_opt height \<and> \<not> truthy_opt width then
          (Some (num_add (num_mul (num_sub (to_number height) paddingDouble) aspectRatio) paddingDouble),
           height,
           num_div (num_sub (to_number height) paddingDouble) (snd contentSize))
        else if truthy_opt width \<and> truthy_opt height then
          (width, height,
           Math_min (num_div (num_sub (to_number height) paddingDouble) (snd contentSize))
                    (num_div (num_sub (to_number width) paddingDouble) (fst contentSize)))
        else (width, height, Finite 1)
      else
        (Some (num_add (fst contentSize) paddingDouble),
         Some (num_add (snd contentSize) paddingDouble),
         Finite 1))"

text \<open>
  Lines 327 to 347: one round of the loop over the shapes. The state is the text nodes
  emitted so far, the class counter and the selectors, a \<^verbatim>\<open>Map\<close> kept as the list
  of its entries in insertion order.
\<close>

definition shape_style :: "shape \<Rightarrow> string" where
  "shape_style s =
     join '';''
       (map (\<lambda>(prop, v). (case CssSvgMap prop of None \<Rightarrow> prop | Some p \<Rightarrow> p) @ '':'' @ v)
          (shape_styles s))
     @ '';dominant-baseline: hanging''"

definition text_step ::
  "shape \<Rightarrow> text_node list \<times> nat \<times> (string \<times> string) list
     \<Rightarrow> text_node list \<times> nat \<times> (string \<times> string) list" where
  "text_step s = (\<lambda>(textNodes, classCounter, selectors).
     if shape_text s = [] then (textNodes, classCounter, selectors)
     else
       let style = shape_style s;
           (cls, classCounter', selectors') =
             (case map_of selectors style of
                Some c \<Rightarrow> (c, classCounter, selectors)
              | None \<Rightarrow>
                  (''s'' @ string_of_nat classCounter, Suc classCounter,
                   selectors @ [(style, ''s'' @ string_of_nat classCounter)]))
       in (textNodes @
             [\<lparr>text_x = shape_x s, text_y = shape_y s, text_class = cls,
               text_content = encodeSvgText (shape_text s)\<rparr>],
           classCounter', selectors'))"

definition shapesToSvg ::
  "shape list \<Rightarrow> number option \<Rightarrow> number option \<Rightarrow> number \<Rightarrow> number \<Rightarrow> svg" where
  "shapesToSvg shapes width0 height0 padding0 scalar =
     (let contentSize = getSizeFromShapes shapes;
          padding = clamp_padding width0 height0 padding0;
          paddingDouble = num_mul padding (Finite 2);
          (width, height, contentScalar) = resolve_size contentSize width0 height0 paddingDouble;
          (textNodes, classCounter, selectors) = fold text_step shapes ([], 0, []);
          styleText =
            join [CHR 0x0A]
              (map (\<lambda>(style, selector). ''.'' @ selector @ '' { '' @ style @ '' }'') selectors);
          vx = num_add (num_mul (num_sub (num_mul (fst contentSize) contentScalar) (to_number width))
                          (Finite 0.5)) padding;
          vy = num_add (num_mul (num_sub (num_mul (snd contentSize) contentScalar) (to_number height))
                          (Finite 0.5)) padding
      in \<lparr>svg_width = num_mul (to_number width) scalar,
          svg_height = num_mul (to_number height) scalar,
          viewBox_x = vx, viewBox_y = vy,
          viewBox_width = width, viewBox_height = height,
          style_text = styleText,
          translate = padding,
          scale = contentScalar,
          text_nodes = textNodes\<rparr>)"

section \<open>The exported function\<close>

text \<open>
  The first argument is a selector string or a node; \<open>querySelector\<close> stands for
  \<^verbatim>\<open>document.querySelector\<close>. The options object has five optional fields.
\<close>

datatype target = Selector string | Element node

record options =
  opt_format :: "string option"
  opt_padding :: "number option"
  opt_scalar :: "number option"
  opt_width :: "number option"
  opt_height :: "number option"

text \<open>
  What the promise resolves to: the parsed document element, the blob, the image or the
  canvas made from the SVG document, or \<^verbatim>\<open>undefined\<close> when the function runs off its
  end. The DOM objects are represented by the document they are made from; a failure of
  the image decoder or of the canvas is outside the model.
\<close>

datatype snapshot = SvgElement svg | Blob svg | Image svg | Canvas svg | Undefined

definition format_test :: "string \<Rightarrow> bool" where
  "format_test format =
     (occurs_in ''canvas'' format \<or> occurs_in ''img'' format
      \<or> occurs_in ''svg'' format \<or> occurs_in ''blob'' format)"

definition snapText :: "(string \<Rightarrow> node option) \<Rightarrow> target \<Rightarrow> options \<Rightarrow> error + snapshot" where
  "snapText querySelector querySelectorOrNode opts =
     (case (case querySelectorOrNode of
              Element n \<Rightarrow> if nodeType n \<noteq> 1 then Inl NeedSelectorOrElement else Inr n
            | Selector q \<Rightarrow>
                (case querySelector q of None \<Rightarrow> Inl (NoElementFound q) | Some n \<Rightarrow> Inr n)) of
        Inl e \<Rightarrow> Inl e
      | Inr element \<Rightarrow>
          let format = (case opt_format opts of None \<Rightarrow> ''canvas'' | Some f \<Rightarrow> f);
              padding = (case opt_padding opts of None \<Rightarrow> Finite 0 | Some p \<Rightarrow> p);
              scalar = (case opt_scalar opts of None \<Rightarrow> Finite 1 | Some k \<Rightarrow> k)
          in if \<not> format_test format then Inl (InvalidFormat format)
             else
               (case getShapes element (getBoundingClientRect element) of
                  Inl e \<Rightarrow> Inl e
                | Inr shapes \<Rightarrow>
                    let doc = shapesToSvg (normalizeShapes shapes) (opt_width opts) (opt_height opts)
                                padding scalar
                    in if format = ''svg'' then Inr (SvgElement doc)
                       else if format = ''blob'' then Inr (Blob doc)
                       else if format = ''img'' then Inr (Image doc)
                       else if format = ''canvas'' then Inr (Canvas doc)
                       else Inr Undefined))"

section \<open>Notions used to state the properties\<close>

text \<open>
  What \<^verbatim>\<open>encodeSvgText\<close> writes for one character of its input when the six
  replacements are read as one simultaneous substitution.
\<close>

definition encode_char :: "char \<Rightarrow> string" where
  "encode_char c =
     (if c = CHR ''&'' then ''&amp;''
      else if c = CHR ''%'' then ''%25''
      else if c = CHR ''#'' then ''%23''
      else if c = CHR '' '' then ''&#160;''
      else if c = CHR ''<'' then ''&lt;''
      else if c = CHR ''>'' then ''&gt;''
      else [c])"

text \<open>The string \<open>e\<close> stands in \<open>out\<close> at position \<open>i\<close>.\<close>

definition starts_at :: "string \<Rightarrow> nat \<Rightarrow> string \<Rightarrow> bool" where
  "starts_at out i e = prefix e (drop i out)"


text \<open>The style lookup that returns the ignored value of every registered property.\<close>

definition ignored_style :: "string \<Rightarrow> string" where
  "ignored_style p = (case map_of RelevantShapeStyles p of None \<Rightarrow> [] | Some d \<Rightarrow> d)"


text \<open>
  The least horizontal (vertical) position of a list of shapes is \<open>m\<close>: some shape is at
  \<open>m\<close> and no shape compares below it. A position is finite when both coordinates are
  finite numbers.
\<close>

definition least_x :: "shape list \<Rightarrow> number \<Rightarrow> bool" where
  "least_x shapes m = ((\<exists>s \<in> set shapes. shape_x s = m) \<and> (\<forall>s \<in> set shapes. \<not> num_lt (shape_x s) m))"

definition least_y :: "shape list \<Rightarrow> number \<Rightarrow> bool" where
  "least_y shapes m = ((\<exists>s \<in> set shapes. shape_y s = m) \<and> (\<forall>s \<in> set shapes. \<not> num_lt (shape_y s) m))"

definition finite_position :: "shape \<Rightarrow> bool" where
  "finite_position s = ((\<exists>a. shape_x s = Finite a) \<and> (\<exists>b. shape_y s = Finite b))"


text \<open>
  The line prober as the specification words it. Characters are accumulated into one
  buffer per line index: character \<open>i\<close> is appended to the buffer at index (number of
  rectangles of the selection up to \<open>i\<close>) minus one, and a buffer is created at that index
  when the index has not been seen before. The buffers are kept in ascending order of
  their index.
\<close>

fun spec_append :: "int \<Rightarrow> char \<Rightarrow> (int \<times> string) list \<Rightarrow> (int \<times> string) list" where
  "spec_append k c [] = [(k, [c])]"
| "spec_append k c ((j, b) # bufs) =
     (if k = j then (j, b @ [c]) # bufs
      else if k < j then (k, [c]) # (j, b) # bufs
      else (j, b) # spec_append k c bufs)"

text \<open>The buffers after the first \<open>n\<close> characters.\<close>

definition spec_buffers :: "(nat \<Rightarrow> rect list) \<Rightarrow> string \<Rightarrow> nat \<Rightarrow> (int \<times> string) list" where
  "spec_buffers rects txt n =
     fold (\<lambda>i bufs. spec_append (int (length (rects (i + 1))) - 1) (txt ! i) bufs) [0..<n] []"

text \<open>The rectangle at an index that may be negative or too large.\<close>

definition item_int :: "'a list \<Rightarrow> int \<Rightarrow> 'a option" where
  "item_int xs k = (if 0 \<le> k \<and> k < int (length xs) then Some (xs ! nat k) else None)"

text \<open>
  The result in the specification's words: the final rectangle at each index seen, with
  the buffer at that index, in ascending order of the index.
\<close>

definition spec_probe :: "node \<Rightarrow> line list" where
  "spec_probe textNode =
     (case nodeValue textNode of
        None \<Rightarrow> []
      | Some txt \<Rightarrow>
          if txt = [] then []
          else map (\<lambda>(k, b). \<lparr>line_rect = item_int (getClientRects textNode (length txt)) k,
                               line_text = b\<rparr>)
                 (spec_buffers (getClientRects textNode) txt (length txt)))"

text \<open>
  The rectangle counts of the growing selection never skip a line: every prefix measures
  at least one rectangle, and whenever a prefix measures \<open>c\<close> rectangles, every smaller
  positive count has been measured by a shorter prefix.
\<close>

definition never_skips :: "(nat \<Rightarrow> rect list) \<Rightarrow> nat \<Rightarrow> bool" where
  "never_skips rects n =
     (\<forall>i \<in> {0..<n}. 1 \<le> length (rects (i + 1))
        \<and> (\<forall>k \<in> {1..<length (rects (i + 1))}. \<exists>j \<in> {0..<i}. length (rects (j + 1)) = k))"

text \<open>A list paired with its indices, counted from \<open>n\<close>.\<close>

fun index_from :: "nat \<Rightarrow> 'a list \<Rightarrow> (int \<times> 'a) list" where
  "index_from n [] = []"
| "index_from n (x # xs) = (int n, x) # index_from (Suc n) xs"

text \<open>
  Example nodes: a rectangle for the line at a given height; a text node whose four
  characters wrap after the second; a text node on one line; a text node whose selection
  jumps from one rectangle to three; a text node for which the layout engine reports no
  rectangle at all; an element whose only child is the text node on one line; an element
  without children; and the empty options object.
\<close>

definition row :: "real \<Rightarrow> rect" where
  "row t = \<lparr>rect_x = Finite 0, rect_y = Finite t, rect_width = Finite 100, rect_height = Finite 20\<rparr>"

definition wrapped_node :: node where
  "wrapped_node =
     Node 3 (Some ''abcd'') (Some ignored_style)
       (\<lambda>e. if e \<le> 2 then [row 0] else [row 0, row 20]) (row 0) []"

definition single_line_node :: node where
  "single_line_node = Node 3 (Some ''hello'') (Some ignored_style) (\<lambda>e. [row 0]) (row 0) []"

definition skipping_node :: node where
  "skipping_node =
     Node 3 (Some ''abc'') (Some ignored_style)
       (\<lambda>e. if e \<le> 1 then [row 0] else [row 0, row 20, row 40]) (row 0) []"

definition unrendered_node :: node where
  "unrendered_node = Node 3 (Some ''hi'') (Some ignored_style) (\<lambda>e. []) (row 0) []"

definition text_element :: node where
  "text_element = Node 1 None None (\<lambda>e. []) (row 0) [single_line_node]"

definition empty_element :: node where
  "empty_element = Node 1 None None (\<lambda>e. []) (row 0) []"

definition no_options :: options where
  "no_options = \<lparr>opt_format = None, opt_padding = None, opt_scalar = None,
                  opt_width = None, opt_height = None\<rparr>"


section \<open>The text encoder\<close>

lemma replace_all_Nil: "replace_all c rep [] = []"
  by (simp add: replace_all_def)

lemma replace_all_Cons: "replace_all c rep (d # s) = (if d = c then rep else [d]) @ replace_all c rep s"
  by (simp add: replace_all_def)

lemma replace_all_append: "replace_all c rep (a @ b) = replace_all c rep a @ replace_all c rep b"
  by (simp add: replace_all_def)

lemma encodeSvgText_Nil: "encodeSvgText [] = []"
  by (simp add: encodeSvgText_def replace_all_Nil)

lemma encodeSvgText_Cons: "encodeSvgText (c # s) = encode_char c @ encodeSvgText s"
  by (simp add: encodeSvgText_def encode_char_def replace_all_Cons replace_all_append replace_all_Nil)

lemma encodeSvgText_concat: "encodeSvgText s = concat (map encode_char s)"
  by (induction s) (simp_all add: encodeSvgText_Nil encodeSvgText_Cons)

lemma encode_char_set: "set (encode_char c) \<inter> {CHR ''<'', CHR ''>'', CHR '' ''} = {}"
  by (simp add: encode_char_def)

lemma encoded_no_raw: "set (encodeSvgText s) \<inter> {CHR ''<'', CHR ''>'', CHR '' ''} = {}"
  by (induction s) (use encode_char_set in \<open>auto simp: encodeSvgText_Nil encodeSvgText_Cons\<close>)

lemma encode_char_amp:
  "i < length (encode_char c) \<Longrightarrow> encode_char c ! i = CHR ''&'' \<Longrightarrow>
     i = 0 \<and> encode_char c \<in> {''&amp;'', ''&#160;'', ''&lt;'', ''&gt;''}"
  by (auto simp: encode_char_def nth_Cons' split: if_splits)

lemma encode_char_percent:
  "i < length (encode_char c) \<Longrightarrow> encode_char c ! i = CHR ''%'' \<Longrightarrow>
     i = 0 \<and> encode_char c \<in> {''%25'', ''%23''}"
  by (auto simp: encode_char_def nth_Cons' split: if_splits)

lemma encode_char_hash:
  "i < length (encode_char c) \<Longrightarrow> encode_char c ! i = CHR ''#'' \<Longrightarrow>
     i = 1 \<and> encode_char c = ''&#160;''"
  by (auto simp: encode_char_def nth_Cons' split: if_splits)

lemma encoded_amp:
  "i < length (encodeSvgText s) \<Longrightarrow> encodeSvgText s ! i = CHR ''&'' \<Longrightarrow>
     starts_at (encodeSvgText s) i ''&amp;'' \<or> starts_at (encodeSvgText s) i ''&#160;''
     \<or> starts_at (encodeSvgText s) i ''&lt;'' \<or> starts_at (encodeSvgText s) i ''&gt;''"
proof (induction s arbitrary: i)
  case Nil
  then show ?case by (simp add: encodeSvgText_Nil)
next
  case (Cons c s)
  let ?t = "encode_char c"
  show ?case
  proof (cases "i < length ?t")
    case True
    with Cons.prems have "?t ! i = CHR ''&''"
      by (simp add: encodeSvgText_Cons nth_append)
    with True have "i = 0" and "?t \<in> {''&amp;'', ''&#160;'', ''&lt;'', ''&gt;''}"
      using encode_char_amp by blast+
    then show ?thesis
      by (auto simp: starts_at_def encodeSvgText_Cons)
  next
    case False
    then have ge: "length ?t \<le> i" by simp
    with Cons.prems have "i - length ?t < length (encodeSvgText s)"
      and "encodeSvgText s ! (i - length ?t) = CHR ''&''"
      by (simp_all add: encodeSvgText_Cons nth_append)
    from Cons.IH [OF this] ge show ?thesis
      by (simp add: starts_at_def encodeSvgText_Cons)
  qed
qed

lemma encoded_percent:
  "i < length (encodeSvgText s) \<Longrightarrow> encodeSvgText s ! i = CHR ''%'' \<Longrightarrow>
     starts_at (encodeSvgText s) i ''%25'' \<or> starts_at (encodeSvgText s) i ''%23''"
proof (induction s arbitrary: i)
  case Nil
  then show ?case by (simp add: encodeSvgText_Nil)
next
  case (Cons c s)
  let ?t = "encode_char c"
  show ?case
  proof (cases "i < length ?t")
    case True
    with Cons.prems have "?t ! i = CHR ''%''"
      by (simp add: encodeSvgText_Cons nth_append)
    with True have "i = 0" and "?t \<in> {''%25'', ''%23''}"
      using encode_char_percent by blast+
    then show ?thesis
      by (auto simp: starts_at_def encodeSvgText_Cons)
  next
    case False
    then have ge: "length ?t \<le> i" by simp
    with Cons.prems have "i - length ?t < length (encodeSvgText s)"
      and "encodeSvgText s ! (i - length ?t) = CHR ''%''"
      by (simp_all add: encodeSvgText_Cons nth_append)
    from Cons.IH [OF this] ge show ?thesis
      by (simp add: starts_at_def encodeSvgText_Cons)
  qed
qed

lemma encoded_hash:
  "i < length (encodeSvgText s) \<Longrightarrow> encodeSvgText s ! i = CHR ''#'' \<Longrightarrow>
     0 < i \<and> starts_at (encodeSvgText s) (i - 1) ''&#160;''"
proof (induction s arbitrary: i)
  case Nil
  then show ?case by (simp add: encodeSvgText_Nil)
next
  case (Cons c s)
  let ?t = "encode_char c"
  show ?case
  proof (cases "i < length ?t")
    case True
    with Cons.prems have "?t ! i = CHR ''#''"
      by (simp add: encodeSvgText_Cons nth_append)
    with True have "i = 1" and "?t = ''&#160;''"
      using encode_char_hash by blast+
    then show ?thesis
      by (simp add: starts_at_def encodeSvgText_Cons)
  next
    case False
    then have ge: "length ?t \<le> i" by simp
    with Cons.prems have "i - length ?t < length (encodeSvgText s)"
      and "encodeSvgText s ! (i - length ?t) = CHR ''#''"
      by (simp_all add: encodeSvgText_Cons nth_append)
    from Cons.IH [OF this] have "0 < i - length ?t"
      and "starts_at (encodeSvgText s) (i - length ?t - 1) ''&#160;''" by simp_all
    then show ?thesis using ge
      by (simp add: starts_at_def encodeSvgText_Cons)
  qed
qed

text \<open>
  Claim C8, as amended. The six replacements run in the order ampersand, percent, hash, space, less-than,
  greater-than (the definition of \<open>encodeSvgText\<close>), and no replacement touches a
  character written by an earlier one, so the result is the concatenation of what
  \<open>encode_char\<close> gives for each character of the input. For every input the result
  contains no less-than, greater-than or space character; every ampersand in it is the
  first character of \<^verbatim>\<open>&amp;\<close>, \<^verbatim>\<open>&#160;\<close>, \<^verbatim>\<open>&lt;\<close> or \<^verbatim>\<open>&gt;\<close>;
  every percent sign is the first character of \<^verbatim>\<open>%25\<close> or \<^verbatim>\<open>%23\<close>; and every
  hash is the second character of \<^verbatim>\<open>&#160;\<close>. (Percent signs and hashes do occur
  in the result, inside these sequences.)
\<close>

theorem encodeSvgText_result:
  "encodeSvgText s = concat (map encode_char s)
   \<and> CHR ''<'' \<notin> set (encodeSvgText s) \<and> CHR ''>'' \<notin> set (encodeSvgText s)
   \<and> CHR '' '' \<notin> set (encodeSvgText s)
   \<and> (\<forall>i < length (encodeSvgText s). encodeSvgText s ! i = CHR ''&'' \<longrightarrow>
         starts_at (encodeSvgText s) i ''&amp;'' \<or> starts_at (encodeSvgText s) i ''&#160;''
         \<or> starts_at (encodeSvgText s) i ''&lt;'' \<or> starts_at (encodeSvgText s) i ''&gt;'')
   \<and> (\<forall>i < length (encodeSvgText s). encodeSvgText s ! i = CHR ''%'' \<longrightarrow>
         starts_at (encodeSvgText s) i ''%25'' \<or> starts_at (encodeSvgText s) i ''%23'')
   \<and> (\<forall>i < length (encodeSvgText s). encodeSvgText s ! i = CHR ''#'' \<longrightarrow>
         0 < i \<and> starts_at (encodeSvgText s) (i - 1) ''&#160;'')"
  using encodeSvgText_concat [of s] encoded_no_raw [of s] encoded_amp [of _ s]
    encoded_percent [of _ s] encoded_hash [of _ s]
  by blast

lemma encodeSvgText_example: "encodeSvgText ''A & B < 5% #1'' = ''A&#160;&amp;&#160;B&#160;&lt;&#160;5%25&#160;%231''"
  by (simp add: encodeSvgText_def replace_all_def)

theorem encodeSvgText_result_witness:
  "encodeSvgText ''A & B < 5% #1'' = ''A&#160;&amp;&#160;B&#160;&lt;&#160;5%25&#160;%231''
   \<and> 1 < length (encodeSvgText ''A & B < 5% #1'')
   \<and> encodeSvgText ''A & B < 5% #1'' ! 1 = CHR ''&''
   \<and> starts_at (encodeSvgText ''A & B < 5% #1'') 1 ''&#160;''
   \<and> 36 < length (encodeSvgText ''A & B < 5% #1'')
   \<and> encodeSvgText ''A & B < 5% #1'' ! 36 = CHR ''%''
   \<and> starts_at (encodeSvgText ''A & B < 5% #1'') 36 ''%25''
   \<and> 2 < length (encodeSvgText ''A & B < 5% #1'')
   \<and> encodeSvgText ''A & B < 5% #1'' ! 2 = CHR ''#''
   \<and> starts_at (encodeSvgText ''A & B < 5% #1'') (2 - 1) ''&#160;''"
proof -
  let ?out = "encodeSvgText ''A & B < 5% #1''"
  note r = encodeSvgText_result [of "''A & B < 5% #1''"]
  have ex: "?out = ''A&#160;&amp;&#160;B&#160;&lt;&#160;5%25&#160;%231''"
    by (simp add: encodeSvgText_example)
  have h1: "1 < length ?out" "?out ! 1 = CHR ''&''" by (simp_all add: ex)
  have h2: "36 < length ?out" "?out ! 36 = CHR ''%''" by (simp_all add: ex)
  have h3: "2 < length ?out" "?out ! 2 = CHR ''#''" by (simp_all add: ex)
  from r h1 have c1: "starts_at ?out 1 ''&amp;'' \<or> starts_at ?out 1 ''&#160;''
      \<or> starts_at ?out 1 ''&lt;'' \<or> starts_at ?out 1 ''&gt;''" by blast
  from r h2 have c2: "starts_at ?out 36 ''%25'' \<or> starts_at ?out 36 ''%23''" by blast
  from r h3 have c3: "starts_at ?out (2 - 1) ''&#160;''" by blast
  have n1: "\<not> starts_at ?out 1 ''&amp;''" "\<not> starts_at ?out 1 ''&lt;''" "\<not> starts_at ?out 1 ''&gt;''"
    by (simp_all add: ex starts_at_def)
  have n2: "\<not> starts_at ?out 36 ''%23''" by (simp add: ex starts_at_def)
  from c1 n1 have c1': "starts_at ?out 1 ''&#160;''" by blast
  from c2 n2 have c2': "starts_at ?out 36 ''%25''" by blast
  from ex h1 h2 h3 c1' c2' c3 show ?thesis by blast
qed

text \<open>
  Claim C8 as first stated, with no percent sign and no hash in the result at all, fails:
  the percent sign of the input comes back as the first character of \<^verbatim>\<open>%25\<close>, and a
  space is written as \<^verbatim>\<open>&#160;\<close>, which contains a hash.
\<close>

theorem encodeSvgText_percent_counterexample:
  "CHR ''%'' \<in> set (encodeSvgText ''5%'') \<and> CHR ''#'' \<in> set (encodeSvgText ''a b'')"
  by (simp add: encodeSvgText_def replace_all_def)


lemma encode_char_length: "1 \<le> length (encode_char c)"
  by (simp add: encode_char_def)

lemma encodeSvgText_length: "length s \<le> length (encodeSvgText s)"
proof (induction s)
  case Nil
  then show ?case by (simp add: encodeSvgText_Nil)
next
  case (Cons c s)
  then show ?case
    using encode_char_length [of c] by (simp add: encodeSvgText_Cons)
qed

lemma encodeSvgText_grows: "CHR ''&'' \<in> set s \<Longrightarrow> length s < length (encodeSvgText s)"
proof (induction s)
  case Nil
  then show ?case by simp
next
  case (Cons c s)
  show ?case
  proof (cases "c = CHR ''&''")
    case True
    then show ?thesis
      using encodeSvgText_length [of s] by (simp add: encodeSvgText_Cons encode_char_def)
  next
    case False
    with Cons show ?thesis
      using encode_char_length [of c] by (simp add: encodeSvgText_Cons)
  qed
qed

lemma encodeSvgText_keeps_amp: "CHR ''&'' \<in> set s \<Longrightarrow> CHR ''&'' \<in> set (encodeSvgText s)"
  by (induction s) (auto simp: encodeSvgText_Cons encode_char_def)

text \<open>
  Claim C10. The encoder is not idempotent: some input is changed again by a second pass.
  Every input that contains an ampersand is such an input, because the second pass
  escapes the ampersand of the entity the first pass wrote.
\<close>

theorem encodeSvgText_not_idempotent:
  "(\<exists>s. encodeSvgText (encodeSvgText s) \<noteq> encodeSvgText s)
   \<and> (\<forall>s. CHR ''&'' \<in> set s \<longrightarrow> encodeSvgText (encodeSvgText s) \<noteq> encodeSvgText s)"
proof -
  have all: "encodeSvgText (encodeSvgText s) \<noteq> encodeSvgText s" if "CHR ''&'' \<in> set s" for s
  proof -
    from that have "CHR ''&'' \<in> set (encodeSvgText s)" by (rule encodeSvgText_keeps_amp)
    then have "length (encodeSvgText s) < length (encodeSvgText (encodeSvgText s))"
      by (rule encodeSvgText_grows)
    then show ?thesis by auto
  qed
  moreover have "CHR ''&'' \<in> set ''&''" by simp
  ultimately show ?thesis by blast
qed

theorem encodeSvgText_not_idempotent_witness:
  "CHR ''&'' \<in> set ''&'' \<and> encodeSvgText ''&'' = ''&amp;''
   \<and> encodeSvgText (encodeSvgText ''&'') = ''&amp;amp;''
   \<and> encodeSvgText (encodeSvgText ''&'') \<noteq> encodeSvgText ''&''"
proof -
  have "CHR ''&'' \<in> set ''&''" by simp
  moreover from this encodeSvgText_not_idempotent
  have "encodeSvgText (encodeSvgText ''&'') \<noteq> encodeSvgText ''&''" by blast
  moreover have "encodeSvgText ''&'' = ''&amp;''" "encodeSvgText (encodeSvgText ''&'') = ''&amp;amp;''"
    by (simp_all add: encodeSvgText_def replace_all_def)
  ultimately show ?thesis by blast
qed


section \<open>The style filter\<close>


lemma map_filter_styles:
  "List.map_filter
     (\<lambda>(prop, valueToIgnore). let v = style prop in if v = valueToIgnore then None else Some (prop, v)) xs =
   map (\<lambda>(p, d). (p, style p)) (filter (\<lambda>(p, d). style p \<noteq> d) xs)"
  by (induction xs) (auto simp: List.map_filter_simps Let_def)

lemma toShape_styles_filter:
  "toShape_styles style =
     map (\<lambda>(p, d). (p, style p)) (filter (\<lambda>(p, d). style p \<noteq> d) RelevantShapeStyles)"
  unfolding toShape_styles_def by (rule map_filter_styles)

lemma toShape_styles_default:
  "(\<forall>(p, d) \<in> set RelevantShapeStyles. style p = d) \<Longrightarrow> toShape_styles style = []"
  by (auto simp: toShape_styles_filter filter_empty_conv)

lemma toShape_styles_single:
  assumes "(p, d) \<in> set RelevantShapeStyles" and "style p \<noteq> d"
    and "\<forall>(q, e) \<in> set RelevantShapeStyles. q \<noteq> p \<longrightarrow> style q = e"
  shows "toShape_styles style = [(p, style p)]"
  using assms
  by (auto simp: toShape_styles_filter RelevantShapeStyles_def)

text \<open>
  Claim C9. Over the fixed list of registered properties (color, background-color,
  font-size, font-family, font-weight, font-style, font-variant, in this order) the
  styles of a shape are the pairs (property, value) whose value differs, as a string, from
  the property's ignored value, in the order of the list: a pair is in the result if and
  only if its property is registered and its value is the looked-up value and is not the
  ignored one. A lookup that returns every ignored value gives the empty list, and a
  lookup that differs from the ignored values in exactly one registered property gives
  the list of that one pair.
\<close>

theorem toShape_styles_spec:
  "toShape_styles style =
     map (\<lambda>(p, d). (p, style p)) (filter (\<lambda>(p, d). style p \<noteq> d) RelevantShapeStyles)
   \<and> ((p, v) \<in> set (toShape_styles style) \<longleftrightarrow>
        (\<exists>d. (p, d) \<in> set RelevantShapeStyles \<and> v = style p \<and> v \<noteq> d))
   \<and> map fst RelevantShapeStyles =
        [''color'', ''background-color'', ''font-size'', ''font-family'', ''font-weight'',
         ''font-style'', ''font-variant'']
   \<and> ((\<forall>(q, e) \<in> set RelevantShapeStyles. style q = e) \<longrightarrow> toShape_styles style = [])
   \<and> ((p, d) \<in> set RelevantShapeStyles \<and> style p \<noteq> d
         \<and> (\<forall>(q, e) \<in> set RelevantShapeStyles. q \<noteq> p \<longrightarrow> style q = e)
        \<longrightarrow> toShape_styles style = [(p, style p)])"
proof -
  have "(p, v) \<in> set (toShape_styles style) \<longleftrightarrow>
        (\<exists>d. (p, d) \<in> set RelevantShapeStyles \<and> v = style p \<and> v \<noteq> d)"
    by (auto simp: toShape_styles_filter)
  moreover have "map fst RelevantShapeStyles =
        [''color'', ''background-color'', ''font-size'', ''font-family'', ''font-weight'',
         ''font-style'', ''font-variant'']"
    by (simp add: RelevantShapeStyles_def)
  ultimately show ?thesis
    using toShape_styles_filter [of style] toShape_styles_default [of style]
      toShape_styles_single [of p d style]
    by blast
qed


theorem toShape_styles_spec_witness:
  "toShape_styles ignored_style = []
   \<and> (''font-size'', ''0px'') \<in> set RelevantShapeStyles
   \<and> (ignored_style(''font-size'' := ''16px'')) ''font-size'' \<noteq> ''0px''
   \<and> toShape_styles (ignored_style(''font-size'' := ''16px'')) = [(''font-size'', ''16px'')]
   \<and> (''font-size'', ''16px'') \<in> set (toShape_styles (ignored_style(''font-size'' := ''16px'')))"
proof -
  let ?st = "ignored_style(''font-size'' := ''16px'')"
  have d: "\<forall>(q, e) \<in> set RelevantShapeStyles. ignored_style q = e"
    by (simp add: RelevantShapeStyles_def ignored_style_def)
  have m: "(''font-size'', ''0px'') \<in> set RelevantShapeStyles"
    by (simp add: RelevantShapeStyles_def)
  have c: "?st ''font-size'' \<noteq> ''0px''" by simp
  have o: "\<forall>(q, e) \<in> set RelevantShapeStyles. q \<noteq> ''font-size'' \<longrightarrow> ?st q = e"
    by (simp add: RelevantShapeStyles_def ignored_style_def)
  from d toShape_styles_spec [of ignored_style "''font-size''" "''16px''" "''0px''"]
  have r1: "toShape_styles ignored_style = []" by blast
  from m c o toShape_styles_spec [of ?st "''font-size''" "''16px''" "''0px''"]
  have r2: "toShape_styles ?st = [(''font-size'', ?st ''font-size'')]" by blast
  then have r3: "toShape_styles ?st = [(''font-size'', ''16px'')]" by simp
  from r1 m c r3 show ?thesis by simp
qed


section \<open>Normalisation\<close>

lemma fold_offset:
  assumes "\<forall>s \<in> set shapes. finite_position s"
  shows "\<exists>l t. fold (\<lambda>s (l, t). (if num_lt (shape_x s) l then shape_x s else l,
                               if num_lt (shape_y s) t then shape_y s else t))
              shapes (Finite l0, Finite t0) = (Finite l, Finite t)
     \<and> l \<le> l0 \<and> t \<le> t0
     \<and> (\<forall>s \<in> set shapes. \<not> num_lt (shape_x s) (Finite l) \<and> \<not> num_lt (shape_y s) (Finite t))
     \<and> (l = l0 \<or> (\<exists>s \<in> set shapes. shape_x s = Finite l))
     \<and> (t = t0 \<or> (\<exists>s \<in> set shapes. shape_y s = Finite t))"
  using assms
proof (induction shapes arbitrary: l0 t0)
  case Nil
  then show ?case by simp
next
  case (Cons s shapes)
  from Cons.prems obtain a b where ab: "shape_x s = Finite a" "shape_y s = Finite b"
    by (auto simp: finite_position_def)
  let ?l1 = "if a < l0 then a else l0" and ?t1 = "if b < t0 then b else t0"
  from Cons.prems have "\<forall>s \<in> set shapes. finite_position s" by simp
  from Cons.IH [OF this, of ?l1 ?t1] obtain l t where
    f: "fold (\<lambda>s (l, t). (if num_lt (shape_x s) l then shape_x s else l,
                               if num_lt (shape_y s) t then shape_y s else t))
              shapes (Finite ?l1, Finite ?t1) = (Finite l, Finite t)"
    and le: "l \<le> ?l1" "t \<le> ?t1"
    and lo: "\<forall>s \<in> set shapes. \<not> num_lt (shape_x s) (Finite l) \<and> \<not> num_lt (shape_y s) (Finite t)"
    and ex: "l = ?l1 \<or> (\<exists>s \<in> set shapes. shape_x s = Finite l)"
    and ey: "t = ?t1 \<or> (\<exists>s \<in> set shapes. shape_y s = Finite t)"
    by blast
  have step: "fold (\<lambda>s (l, t). (if num_lt (shape_x s) l then shape_x s else l,
                               if num_lt (shape_y s) t then shape_y s else t))
              (s # shapes) (Finite l0, Finite t0) = (Finite l, Finite t)"
    using f ab by (simp split: if_splits)
  have "l \<le> l0" "t \<le> t0" "l \<le> a" "t \<le> b"
    using le by (simp_all split: if_splits)
  moreover have "l = l0 \<or> (\<exists>s' \<in> set (s # shapes). shape_x s' = Finite l)"
    using ex ab by (auto split: if_splits)
  moreover have "t = t0 \<or> (\<exists>s' \<in> set (s # shapes). shape_y s' = Finite t)"
    using ey ab by (auto split: if_splits)
  ultimately show ?case
    using step lo ab by auto
qed


lemma normalizeShapes_finite:
  assumes fin: "\<forall>s \<in> set shapes. finite_position s"
  shows "\<exists>l t. normalizeShapes shapes =
           map (\<lambda>s. s\<lparr>shape_x := num_sub (shape_x s) (Finite l),
                        shape_y := num_sub (shape_y s) (Finite t)\<rparr>) shapes
     \<and> l \<le> 9007199254740991 \<and> t \<le> 9007199254740991
     \<and> (\<forall>s \<in> set shapes. \<not> num_lt (shape_x s) (Finite l) \<and> \<not> num_lt (shape_y s) (Finite t))
     \<and> (l = 9007199254740991 \<or> (\<exists>s \<in> set shapes. shape_x s = Finite l))
     \<and> (t = 9007199254740991 \<or> (\<exists>s \<in> set shapes. shape_y s = Finite t))"
proof -
  from fold_offset [OF fin, of 9007199254740991 9007199254740991] obtain l t where
    f: "fold (\<lambda>s (l, t). (if num_lt (shape_x s) l then shape_x s else l,
                               if num_lt (shape_y s) t then shape_y s else t))
              shapes (Finite 9007199254740991, Finite 9007199254740991) = (Finite l, Finite t)"
    and rest: "l \<le> 9007199254740991" "t \<le> 9007199254740991"
      "\<forall>s \<in> set shapes. \<not> num_lt (shape_x s) (Finite l) \<and> \<not> num_lt (shape_y s) (Finite t)"
      "l = 9007199254740991 \<or> (\<exists>s \<in> set shapes. shape_x s = Finite l)"
      "t = 9007199254740991 \<or> (\<exists>s \<in> set shapes. shape_y s = Finite t)"
    by blast
  from f have "normalizeShapes shapes =
           map (\<lambda>s. s\<lparr>shape_x := num_sub (shape_x s) (Finite l),
                        shape_y := num_sub (shape_y s) (Finite t)\<rparr>) shapes"
    by (simp add: normalizeShapes_def MAX_SAFE_INTEGER_def)
  with rest show ?thesis by blast
qed

lemma num_sub_Finite: "num_sub (Finite a) (Finite b) = Finite (a - b)"
  by (simp add: num_sub_def)

lemma normalizeShapes_fixed:
  assumes fin: "\<forall>s \<in> set shapes. finite_position s"
    and lx: "least_x shapes (Finite 0)" and ly: "least_y shapes (Finite 0)"
  shows "normalizeShapes shapes = shapes"
proof -
  from normalizeShapes_finite [OF fin] obtain l t where
    n: "normalizeShapes shapes =
           map (\<lambda>s. s\<lparr>shape_x := num_sub (shape_x s) (Finite l),
                        shape_y := num_sub (shape_y s) (Finite t)\<rparr>) shapes"
    and lo: "\<forall>s \<in> set shapes. \<not> num_lt (shape_x s) (Finite l) \<and> \<not> num_lt (shape_y s) (Finite t)"
    and ex: "l = 9007199254740991 \<or> (\<exists>s \<in> set shapes. shape_x s = Finite l)"
    and ey: "t = 9007199254740991 \<or> (\<exists>s \<in> set shapes. shape_y s = Finite t)"
    by blast
  from lx obtain s0 where s0: "s0 \<in> set shapes" "shape_x s0 = Finite 0"
    and gx: "\<forall>s \<in> set shapes. \<not> num_lt (shape_x s) (Finite 0)"
    by (auto simp: least_x_def)
  from ly obtain s1 where s1: "s1 \<in> set shapes" "shape_y s1 = Finite 0"
    and gy: "\<forall>s \<in> set shapes. \<not> num_lt (shape_y s) (Finite 0)"
    by (auto simp: least_y_def)
  from lo s0 have "l \<le> 0" by fastforce
  moreover from ex gx have "l = 9007199254740991 \<or> 0 \<le> l" by fastforce
  ultimately have l: "l = 0" by linarith
  from lo s1 have "t \<le> 0" by fastforce
  moreover from ey gy have "t = 9007199254740991 \<or> 0 \<le> t" by fastforce
  ultimately have t: "t = 0" by linarith
  have "map (\<lambda>s. s\<lparr>shape_x := num_sub (shape_x s) (Finite 0),
                        shape_y := num_sub (shape_y s) (Finite 0)\<rparr>) shapes = shapes"
  proof (rule map_idI)
    fix s assume "s \<in> set shapes"
    with fin obtain a b where "shape_x s = Finite a" "shape_y s = Finite b"
      by (auto simp: finite_position_def)
    then show "s\<lparr>shape_x := num_sub (shape_x s) (Finite 0),
                 shape_y := num_sub (shape_y s) (Finite 0)\<rparr> = s"
      by (simp add: num_sub_Finite)
  qed
  with n l t show ?thesis by simp
qed

text \<open>
  Claim C7, as amended. For every non-empty list of shapes at finite positions in which
  some shape has an \<open>x\<close> not above \<^verbatim>\<open>Number.MAX_SAFE_INTEGER\<close> and some shape has a
  \<open>y\<close> not above it, the least \<open>x\<close> and the least \<open>y\<close> of the normalised list are
  exactly 0, and normalising the normalised list changes no shape. (The running minimum
  starts at \<^verbatim>\<open>Number.MAX_SAFE_INTEGER\<close>, so it is the least coordinate only when
  some coordinate is at most that large.)
\<close>

theorem normalizeShapes_origin:
  assumes ne: "shapes \<noteq> []"
    and fin: "\<forall>s \<in> set shapes. finite_position s"
    and bx: "\<exists>s \<in> set shapes. \<not> num_lt MAX_SAFE_INTEGER (shape_x s)"
    and by': "\<exists>s \<in> set shapes. \<not> num_lt MAX_SAFE_INTEGER (shape_y s)"
  shows "least_x (normalizeShapes shapes) (Finite 0)
    \<and> least_y (normalizeShapes shapes) (Finite 0)
    \<and> normalizeShapes (normalizeShapes shapes) = normalizeShapes shapes"
proof -
  from normalizeShapes_finite [OF fin] obtain l t where
    n: "normalizeShapes shapes =
           map (\<lambda>s. s\<lparr>shape_x := num_sub (shape_x s) (Finite l),
                        shape_y := num_sub (shape_y s) (Finite t)\<rparr>) shapes"
    and le: "l \<le> 9007199254740991" "t \<le> 9007199254740991"
    and lo: "\<forall>s \<in> set shapes. \<not> num_lt (shape_x s) (Finite l) \<and> \<not> num_lt (shape_y s) (Finite t)"
    and ex: "l = 9007199254740991 \<or> (\<exists>s \<in> set shapes. shape_x s = Finite l)"
    and ey: "t = 9007199254740991 \<or> (\<exists>s \<in> set shapes. shape_y s = Finite t)"
    by blast
  have ex': "\<exists>s \<in> set shapes. shape_x s = Finite l"
  proof (cases "l = 9007199254740991")
    case True
    from bx obtain s where s: "s \<in> set shapes" "\<not> num_lt MAX_SAFE_INTEGER (shape_x s)" by blast
    with fin obtain a where a: "shape_x s = Finite a" by (auto simp: finite_position_def)
    with s have "a \<le> 9007199254740991" by (simp add: MAX_SAFE_INTEGER_def)
    moreover from lo s a True have "9007199254740991 \<le> a" by fastforce
    ultimately show ?thesis using s a True by auto
  next
    case False
    with ex show ?thesis by simp
  qed
  have ey': "\<exists>s \<in> set shapes. shape_y s = Finite t"
  proof (cases "t = 9007199254740991")
    case True
    from by' obtain s where s: "s \<in> set shapes" "\<not> num_lt MAX_SAFE_INTEGER (shape_y s)" by blast
    with fin obtain b where b: "shape_y s = Finite b" by (auto simp: finite_position_def)
    with s have "b \<le> 9007199254740991" by (simp add: MAX_SAFE_INTEGER_def)
    moreover from lo s b True have "9007199254740991 \<le> b" by fastforce
    ultimately show ?thesis using s b True by auto
  next
    case False
    with ey show ?thesis by simp
  qed
  have pos: "finite_position s' \<and> \<not> num_lt (shape_x s') (Finite 0) \<and> \<not> num_lt (shape_y s') (Finite 0)"
    if "s' \<in> set (normalizeShapes shapes)" for s'
  proof -
    from that n obtain s where s: "s \<in> set shapes"
      and s': "s' = s\<lparr>shape_x := num_sub (shape_x s) (Finite l),
                        shape_y := num_sub (shape_y s) (Finite t)\<rparr>" by auto
    from s fin obtain a b where ab: "shape_x s = Finite a" "shape_y s = Finite b"
      by (auto simp: finite_position_def)
    with lo s have "l \<le> a" "t \<le> b" by fastforce+
    with s' ab show ?thesis by (simp add: finite_position_def num_sub_Finite)
  qed
  from ex' obtain sx where sx: "sx \<in> set shapes" "shape_x sx = Finite l" by blast
  have "sx\<lparr>shape_x := num_sub (shape_x sx) (Finite l),
                shape_y := num_sub (shape_y sx) (Finite t)\<rparr> \<in> set (normalizeShapes shapes)"
    unfolding n set_map using sx(1) by (rule imageI)
  moreover have "shape_x (sx\<lparr>shape_x := num_sub (shape_x sx) (Finite l),
                shape_y := num_sub (shape_y sx) (Finite t)\<rparr>) = Finite 0"
    using sx by (simp add: num_sub_Finite)
  ultimately have zx: "\<exists>s' \<in> set (normalizeShapes shapes). shape_x s' = Finite 0" by blast
  from ey' obtain sy where sy: "sy \<in> set shapes" "shape_y sy = Finite t" by blast
  have "sy\<lparr>shape_x := num_sub (shape_x sy) (Finite l),
                shape_y := num_sub (shape_y sy) (Finite t)\<rparr> \<in> set (normalizeShapes shapes)"
    unfolding n set_map using sy(1) by (rule imageI)
  moreover have "shape_y (sy\<lparr>shape_x := num_sub (shape_x sy) (Finite l),
                shape_y := num_sub (shape_y sy) (Finite t)\<rparr>) = Finite 0"
    using sy by (simp add: num_sub_Finite)
  ultimately have zy: "\<exists>s' \<in> set (normalizeShapes shapes). shape_y s' = Finite 0" by blast
  have lx: "least_x (normalizeShapes shapes) (Finite 0)"
    unfolding least_x_def using zx pos by blast
  have ly: "least_y (normalizeShapes shapes) (Finite 0)"
    unfolding least_y_def using zy pos by blast
  have "\<forall>s' \<in> set (normalizeShapes shapes). finite_position s'" using pos by blast
  from normalizeShapes_fixed [OF this lx ly] lx ly show ?thesis by simp
qed


theorem normalizeShapes_origin_witness:
  "normalizeShapes
     [\<lparr>shape_x = Finite 10, shape_y = Finite 20, shape_width = Finite 100, shape_height = Finite 50,
       shape_text = ''ab'', shape_styles = []\<rparr>,
      \<lparr>shape_x = Finite 30, shape_y = Finite 5, shape_width = Finite 40, shape_height = Finite 50,
       shape_text = ''cd'', shape_styles = []\<rparr>] =
     [\<lparr>shape_x = Finite 0, shape_y = Finite 15, shape_width = Finite 100, shape_height = Finite 50,
       shape_text = ''ab'', shape_styles = []\<rparr>,
      \<lparr>shape_x = Finite 20, shape_y = Finite 0, shape_width = Finite 40, shape_height = Finite 50,
       shape_text = ''cd'', shape_styles = []\<rparr>]
   \<and> least_x (normalizeShapes
     [\<lparr>shape_x = Finite 10, shape_y = Finite 20, shape_width = Finite 100, shape_height = Finite 50,
       shape_text = ''ab'', shape_styles = []\<rparr>,
      \<lparr>shape_x = Finite 30, shape_y = Finite 5, shape_width = Finite 40, shape_height = Finite 50,
       shape_text = ''cd'', shape_styles = []\<rparr>]) (Finite 0)
   \<and> least_y (normalizeShapes
     [\<lparr>shape_x = Finite 10, shape_y = Finite 20, shape_width = Finite 100, shape_height = Finite 50,
       shape_text = ''ab'', shape_styles = []\<rparr>,
      \<lparr>shape_x = Finite 30, shape_y = Finite 5, shape_width = Finite 40, shape_height = Finite 50,
       shape_text = ''cd'', shape_styles = []\<rparr>]) (Finite 0)
   \<and> normalizeShapes (normalizeShapes
     [\<lparr>shape_x = Finite 10, shape_y = Finite 20, shape_width = Finite 100, shape_height = Finite 50,
       shape_text = ''ab'', shape_styles = []\<rparr>,
      \<lparr>shape_x = Finite 30, shape_y = Finite 5, shape_width = Finite 40, shape_height = Finite 50,
       shape_text = ''cd'', shape_styles = []\<rparr>]) =
     normalizeShapes
     [\<lparr>shape_x = Finite 10, shape_y = Finite 20, shape_width = Finite 100, shape_height = Finite 50,
       shape_text = ''ab'', shape_styles = []\<rparr>,
      \<lparr>shape_x = Finite 30, shape_y = Finite 5, shape_width = Finite 40, shape_height = Finite 50,
       shape_text = ''cd'', shape_styles = []\<rparr>]"
proof -
  let ?S = "[\<lparr>shape_x = Finite 10, shape_y = Finite 20, shape_width = Finite 100, shape_height = Finite 50,
       shape_text = ''ab'', shape_styles = []\<rparr>,
      \<lparr>shape_x = Finite 30, shape_y = Finite 5, shape_width = Finite 40, shape_height = Finite 50,
       shape_text = ''cd'', shape_styles = []\<rparr>]"
  have ne: "?S \<noteq> []" by simp
  have fin: "\<forall>s \<in> set ?S. finite_position s" by (simp add: finite_position_def)
  have bx: "\<exists>s \<in> set ?S. \<not> num_lt MAX_SAFE_INTEGER (shape_x s)"
    by (simp add: MAX_SAFE_INTEGER_def)
  have by': "\<exists>s \<in> set ?S. \<not> num_lt MAX_SAFE_INTEGER (shape_y s)"
    by (simp add: MAX_SAFE_INTEGER_def)
  have v: "normalizeShapes ?S =
     [\<lparr>shape_x = Finite 0, shape_y = Finite 15, shape_width = Finite 100, shape_height = Finite 50,
       shape_text = ''ab'', shape_styles = []\<rparr>,
      \<lparr>shape_x = Finite 20, shape_y = Finite 0, shape_width = Finite 40, shape_height = Finite 50,
       shape_text = ''cd'', shape_styles = []\<rparr>]"
    by (simp add: normalizeShapes_def MAX_SAFE_INTEGER_def num_sub_def)
  from normalizeShapes_origin [OF ne fin bx by'] v show ?thesis by blast
qed

text \<open>
  Claim C7 as first stated, for every non-empty list, fails for a shape beyond
  \<^verbatim>\<open>Number.MAX_SAFE_INTEGER\<close>: the offset subtracted is the initial value of the
  running minimum, and the shape ends at 1 instead of 0.
\<close>

theorem normalizeShapes_origin_counterexample:
  "normalizeShapes
     [\<lparr>shape_x = Finite 9007199254740992, shape_y = Finite 0, shape_width = Finite 10,
       shape_height = Finite 10, shape_text = ''ab'', shape_styles = []\<rparr>] =
     [\<lparr>shape_x = Finite 1, shape_y = Finite 0, shape_width = Finite 10,
       shape_height = Finite 10, shape_text = ''ab'', shape_styles = []\<rparr>]
   \<and> \<not> least_x (normalizeShapes
     [\<lparr>shape_x = Finite 9007199254740992, shape_y = Finite 0, shape_width = Finite 10,
       shape_height = Finite 10, shape_text = ''ab'', shape_styles = []\<rparr>]) (Finite 0)"
  by (simp add: normalizeShapes_def MAX_SAFE_INTEGER_def num_sub_def least_x_def)


section \<open>Padding, size and scale of the document\<close>

lemma translate_shapesToSvg:
  "translate (shapesToSvg shapes width height padding scalar) = clamp_padding width height padding"
  by (simp add: shapesToSvg_def Let_def split: prod.splits)

lemma Math_min_Finite: "Math_min (Finite a) (Finite b) = Finite (min a b)"
  by (simp add: Math_min_def min_def)

lemma Math_min_le:
  "a \<noteq> NaN \<Longrightarrow> b \<noteq> NaN \<Longrightarrow>
     Math_min a b \<noteq> NaN \<and> \<not> num_lt a (Math_min a b) \<and> \<not> num_lt b (Math_min a b)"
  by (cases a; cases b) (simp_all add: Math_min_def)

lemma not_lt_trans:
  "\<not> num_lt b x \<Longrightarrow> \<not> num_lt x y \<Longrightarrow> x \<noteq> NaN \<Longrightarrow> b \<noteq> NaN \<Longrightarrow> y \<noteq> NaN \<Longrightarrow> \<not> num_lt b y"
  by (cases b; cases x; cases y) simp_all

lemma truthy_not_NaN: "truthy a \<Longrightarrow> a \<noteq> NaN"
  by (cases a) simp_all

text \<open>
  Half of a truthy dimension is a number (not NaN). Nothing below uses that it is not
  zero: the product of a double and 0.5 can underflow to zero, where the exact product
  of the model cannot.
\<close>

lemma scaled_not_NaN: "w \<noteq> NaN \<Longrightarrow> c \<noteq> 0 \<Longrightarrow> num_mul w (Finite c) \<noteq> NaN"
  by (cases w) (simp_all add: signed_inf_def)

lemma half_not_NaN: "truthy_opt d \<Longrightarrow> num_mul (to_number d) (Finite 0.5) \<noteq> NaN"
  by (cases d) (simp_all add: scaled_not_NaN truthy_not_NaN)

lemma clamp_padding_le_width:
  assumes w: "truthy_opt width" and p: "truthy padding"
  shows "\<not> num_lt (num_mul (to_number width) (Finite 0.5)) (clamp_padding width height padding)"
proof -
  let ?hw = "num_mul (to_number width) (Finite 0.5)"
  let ?hh = "num_mul (to_number height) (Finite 0.5)"
  let ?p1 = "Math_min padding ?hw"
  from p have "padding \<noteq> NaN" by (rule truthy_not_NaN)
  moreover from w have nw: "?hw \<noteq> NaN" by (rule half_not_NaN)
  ultimately have le1: "\<not> num_lt ?hw ?p1" and n1: "?p1 \<noteq> NaN"
    using Math_min_le by blast+
  show ?thesis
  proof (cases "truthy_opt height \<and> truthy ?p1")
    case True
    then have "truthy_opt height" by simp
    then have nh: "?hh \<noteq> NaN" by (rule half_not_NaN)
    from Math_min_le [OF n1 nh] have "\<not> num_lt ?p1 (Math_min ?p1 ?hh)" "Math_min ?p1 ?hh \<noteq> NaN"
      by simp_all
    with le1 n1 nw have "\<not> num_lt ?hw (Math_min ?p1 ?hh)"
      using not_lt_trans by blast
    moreover from True w p have "clamp_padding width height padding = Math_min ?p1 ?hh"
      by (simp add: clamp_padding_def Let_def)
    ultimately show ?thesis by simp
  next
    case False
    with w p have "clamp_padding width height padding = ?p1"
      by (auto simp: clamp_padding_def Let_def)
    with le1 show ?thesis by simp
  qed
qed

lemma clamp_padding_le_height:
  assumes h: "truthy_opt height"
    and t1: "truthy (if truthy_opt width \<and> truthy padding
                     then Math_min padding (num_mul (to_number width) (Finite 0.5)) else padding)"
  shows "\<not> num_lt (num_mul (to_number height) (Finite 0.5)) (clamp_padding width height padding)"
proof -
  let ?hw = "num_mul (to_number width) (Finite 0.5)"
  let ?hh = "num_mul (to_number height) (Finite 0.5)"
  let ?p1 = "if truthy_opt width \<and> truthy padding then Math_min padding ?hw else padding"
  from t1 have "?p1 \<noteq> NaN" by (rule truthy_not_NaN)
  moreover from h have "?hh \<noteq> NaN" by (rule half_not_NaN)
  ultimately have "\<not> num_lt ?hh (Math_min ?p1 ?hh)"
    using Math_min_le by blast
  moreover from h t1 have "clamp_padding width height padding = Math_min ?p1 ?hh"
    by (simp add: clamp_padding_def Let_def)
  ultimately show ?thesis by simp
qed

text \<open>
  Claim C6, as amended. The padding of the document (the translation of its group) is the
  requested padding clamped in two steps. A step applies only when the dimension is
  truthy (requested, not zero and not NaN) and the padding at hand is truthy: then padding
  becomes \<^verbatim>\<open>Math.min(padding, dimension * 0.5)\<close>, first for the width, then for the
  height with the padding the first step left. With a truthy width only, or a truthy
  height only, the result is the minimum with half of that dimension; with both, and the
  padding left by the first step still truthy, it is the minimum of the three; when
  neither dimension is truthy, or the padding is zero, the padding is unchanged. When the
  width step applies, the final padding is not above half of the width; when the height
  is truthy and the padding left by the first step is truthy, the final padding is not
  above half of the height. (That the first step leaves a truthy padding is a hypothesis
  of its own: half of a width can be zero in double arithmetic, by underflow, and the
  height step is then skipped.)
\<close>

theorem shapesToSvg_padding:
  "(truthy_opt width \<and> truthy padding \<and> \<not> truthy_opt height \<longrightarrow>
      translate (shapesToSvg shapes width height padding scalar) =
        Math_min padding (num_mul (to_number width) (Finite 0.5)))
   \<and> (truthy_opt height \<and> truthy padding \<and> \<not> truthy_opt width \<longrightarrow>
      translate (shapesToSvg shapes width height padding scalar) =
        Math_min padding (num_mul (to_number height) (Finite 0.5)))
   \<and> (truthy_opt width \<and> truthy_opt height \<and> truthy padding
       \<and> truthy (Math_min padding (num_mul (to_number width) (Finite 0.5))) \<longrightarrow>
      translate (shapesToSvg shapes width height padding scalar) =
        Math_min (Math_min padding (num_mul (to_number width) (Finite 0.5)))
          (num_mul (to_number height) (Finite 0.5)))
   \<and> ((\<not> truthy_opt width \<and> \<not> truthy_opt height) \<or> \<not> truthy padding \<longrightarrow>
      translate (shapesToSvg shapes width height padding scalar) = padding)
   \<and> (truthy_opt width \<and> truthy padding \<longrightarrow>
      \<not> num_lt (num_mul (to_number width) (Finite 0.5))
           (translate (shapesToSvg shapes width height padding scalar)))
   \<and> (truthy_opt height
       \<and> truthy (if truthy_opt width \<and> truthy padding
                  then Math_min padding (num_mul (to_number width) (Finite 0.5)) else padding) \<longrightarrow>
      \<not> num_lt (num_mul (to_number height) (Finite 0.5))
           (translate (shapesToSvg shapes width height padding scalar)))"
proof -
  have "translate (shapesToSvg shapes width height padding scalar) =
        Math_min padding (num_mul (to_number width) (Finite 0.5))"
    if "truthy_opt width" "truthy padding" "\<not> truthy_opt height"
    using that by (simp add: translate_shapesToSvg clamp_padding_def Let_def)
  moreover have "translate (shapesToSvg shapes width height padding scalar) =
        Math_min padding (num_mul (to_number height) (Finite 0.5))"
    if "truthy_opt height" "truthy padding" "\<not> truthy_opt width"
    using that by (simp add: translate_shapesToSvg clamp_padding_def Let_def)
  moreover have "translate (shapesToSvg shapes width height padding scalar) =
        Math_min (Math_min padding (num_mul (to_number width) (Finite 0.5)))
          (num_mul (to_number height) (Finite 0.5))"
    if "truthy_opt width" "truthy_opt height" "truthy padding"
      "truthy (Math_min padding (num_mul (to_number width) (Finite 0.5)))"
    using that by (simp add: translate_shapesToSvg clamp_padding_def Let_def)
  moreover have "translate (shapesToSvg shapes width height padding scalar) = padding"
    if "(\<not> truthy_opt width \<and> \<not> truthy_opt height) \<or> \<not> truthy padding"
    using that by (auto simp: translate_shapesToSvg clamp_padding_def Let_def)
  moreover have "\<not> num_lt (num_mul (to_number width) (Finite 0.5))
           (translate (shapesToSvg shapes width height padding scalar))"
    if "truthy_opt width" "truthy padding"
    unfolding translate_shapesToSvg using that by (rule clamp_padding_le_width)
  moreover have "\<not> num_lt (num_mul (to_number height) (Finite 0.5))
           (translate (shapesToSvg shapes width height padding scalar))"
    if "truthy_opt height"
      "truthy (if truthy_opt width \<and> truthy padding
               then Math_min padding (num_mul (to_number width) (Finite 0.5)) else padding)"
    unfolding translate_shapesToSvg using that by (rule clamp_padding_le_height)
  ultimately show ?thesis by blast
qed

theorem shapesToSvg_padding_witness:
  "translate (shapesToSvg [] (Some (Finite 100)) None (Finite 80) (Finite 1)) = Finite 50
   \<and> translate (shapesToSvg [] None (Some (Finite 60)) (Finite 80) (Finite 1)) = Finite 30
   \<and> truthy (Math_min (Finite 80) (num_mul (to_number (Some (Finite 100))) (Finite 0.5)))
   \<and> translate (shapesToSvg [] (Some (Finite 100)) (Some (Finite 60)) (Finite 80) (Finite 1)) = Finite 30
   \<and> truthy (Math_min (Finite 20) (num_mul (to_number (Some (Finite 100))) (Finite 0.5)))
   \<and> translate (shapesToSvg [] (Some (Finite 100)) (Some (Finite 60)) (Finite 20) (Finite 1)) = Finite 20
   \<and> translate (shapesToSvg [] None None (Finite 80) (Finite 1)) = Finite 80
   \<and> translate (shapesToSvg [] (Some (Finite 100)) None (Finite 0) (Finite 1)) = Finite 0
   \<and> \<not> num_lt (num_mul (to_number (Some (Finite 100))) (Finite 0.5))
           (translate (shapesToSvg [] (Some (Finite 100)) (Some (Finite 60)) (Finite 80) (Finite 1)))
   \<and> \<not> num_lt (num_mul (to_number (Some (Finite 60))) (Finite 0.5))
           (translate (shapesToSvg [] (Some (Finite 100)) (Some (Finite 60)) (Finite 80) (Finite 1)))"
proof -
  have t: "truthy_opt (Some (Finite 100))" "truthy_opt (Some (Finite 60))" "truthy (Finite 80)"
    "truthy (Finite 20)" "\<not> truthy_opt None" "\<not> truthy (Finite 0)" by simp_all
  have m: "Math_min (Finite 80) (num_mul (to_number (Some (Finite 100))) (Finite 0.5)) = Finite 50"
    "Math_min (Finite 20) (num_mul (to_number (Some (Finite 100))) (Finite 0.5)) = Finite 20"
    "Math_min (Finite 80) (num_mul (to_number (Some (Finite 60))) (Finite 0.5)) = Finite 30"
    "Math_min (Math_min (Finite 80) (num_mul (to_number (Some (Finite 100))) (Finite 0.5)))
          (num_mul (to_number (Some (Finite 60))) (Finite 0.5)) = Finite 30"
    "Math_min (Math_min (Finite 20) (num_mul (to_number (Some (Finite 100))) (Finite 0.5)))
          (num_mul (to_number (Some (Finite 60))) (Finite 0.5)) = Finite 20"
    by (simp_all add: Math_min_Finite)
  have s: "truthy (Math_min (Finite 80) (num_mul (to_number (Some (Finite 100))) (Finite 0.5)))"
    "truthy (Math_min (Finite 20) (num_mul (to_number (Some (Finite 100))) (Finite 0.5)))"
    unfolding m by simp_all
  from t s(1) have s': "truthy (if truthy_opt (Some (Finite 100)) \<and> truthy (Finite 80)
      then Math_min (Finite 80) (num_mul (to_number (Some (Finite 100))) (Finite 0.5)) else Finite 80)"
    by presburger
  from t shapesToSvg_padding [of "Some (Finite 100)" "Finite 80" None "[]" "Finite 1"]
  have 1: "translate (shapesToSvg [] (Some (Finite 100)) None (Finite 80) (Finite 1)) =
      Math_min (Finite 80) (num_mul (to_number (Some (Finite 100))) (Finite 0.5))" by blast
  from t shapesToSvg_padding [of None "Finite 80" "Some (Finite 60)" "[]" "Finite 1"]
  have 2: "translate (shapesToSvg [] None (Some (Finite 60)) (Finite 80) (Finite 1)) =
      Math_min (Finite 80) (num_mul (to_number (Some (Finite 60))) (Finite 0.5))" by blast
  from t s shapesToSvg_padding [of "Some (Finite 100)" "Finite 80" "Some (Finite 60)" "[]" "Finite 1"]
  have 3: "translate (shapesToSvg [] (Some (Finite 100)) (Some (Finite 60)) (Finite 80) (Finite 1)) =
      Math_min (Math_min (Finite 80) (num_mul (to_number (Some (Finite 100))) (Finite 0.5)))
          (num_mul (to_number (Some (Finite 60))) (Finite 0.5))" by blast
  from t s shapesToSvg_padding [of "Some (Finite 100)" "Finite 20" "Some (Finite 60)" "[]" "Finite 1"]
  have 4: "translate (shapesToSvg [] (Some (Finite 100)) (Some (Finite 60)) (Finite 20) (Finite 1)) =
      Math_min (Math_min (Finite 20) (num_mul (to_number (Some (Finite 100))) (Finite 0.5)))
          (num_mul (to_number (Some (Finite 60))) (Finite 0.5))" by blast
  from t shapesToSvg_padding [of None "Finite 80" None "[]" "Finite 1"]
  have 5: "translate (shapesToSvg [] None None (Finite 80) (Finite 1)) = Finite 80" by blast
  from t shapesToSvg_padding [of "Some (Finite 100)" "Finite 0" None "[]" "Finite 1"]
  have 6: "translate (shapesToSvg [] (Some (Finite 100)) None (Finite 0) (Finite 1)) = Finite 0" by blast
  from t s' shapesToSvg_padding [of "Some (Finite 100)" "Finite 80" "Some (Finite 60)" "[]" "Finite 1"]
  have 7: "\<not> num_lt (num_mul (to_number (Some (Finite 100))) (Finite 0.5))
           (translate (shapesToSvg [] (Some (Finite 100)) (Some (Finite 60)) (Finite 80) (Finite 1)))"
    "\<not> num_lt (num_mul (to_number (Some (Finite 60))) (Finite 0.5))
           (translate (shapesToSvg [] (Some (Finite 100)) (Some (Finite 60)) (Finite 80) (Finite 1)))"
    by blast+
  from 1 2 3 4 5 6 m have "translate (shapesToSvg [] (Some (Finite 100)) None (Finite 80) (Finite 1)) = Finite 50
   \<and> translate (shapesToSvg [] None (Some (Finite 60)) (Finite 80) (Finite 1)) = Finite 30
   \<and> translate (shapesToSvg [] (Some (Finite 100)) (Some (Finite 60)) (Finite 80) (Finite 1)) = Finite 30
   \<and> translate (shapesToSvg [] (Some (Finite 100)) (Some (Finite 60)) (Finite 20) (Finite 1)) = Finite 20
   \<and> translate (shapesToSvg [] None None (Finite 80) (Finite 1)) = Finite 80
   \<and> translate (shapesToSvg [] (Some (Finite 100)) None (Finite 0) (Finite 1)) = Finite 0"
    by simp
  with 7 s show ?thesis by blast
qed

text \<open>
  Claim C6 as first stated, for every requested width, fails for a requested width of
  zero: with padding 5 the claim gives \<^verbatim>\<open>min(5, 0 * 0.5) = 0\<close>, the code leaves 5.
\<close>

theorem shapesToSvg_padding_counterexample:
  "translate (shapesToSvg [] (Some (Finite 0)) None (Finite 5) (Finite 1)) = Finite 5
   \<and> Math_min (Finite 5) (num_mul (Finite 0) (Finite 0.5)) = Finite 0"
  by (simp add: translate_shapesToSvg clamp_padding_def Math_min_Finite)



lemma shapesToSvg_fields:
  "viewBox_width (shapesToSvg shapes width height padding scalar) =
     fst (resolve_size (getSizeFromShapes shapes) width height
            (num_mul (clamp_padding width height padding) (Finite 2)))"
  "viewBox_height (shapesToSvg shapes width height padding scalar) =
     fst (snd (resolve_size (getSizeFromShapes shapes) width height
            (num_mul (clamp_padding width height padding) (Finite 2))))"
  "scale (shapesToSvg shapes width height padding scalar) =
     snd (snd (resolve_size (getSizeFromShapes shapes) width height
            (num_mul (clamp_padding width height padding) (Finite 2))))"
  "svg_width (shapesToSvg shapes width height padding scalar) =
     num_mul (to_number (fst (resolve_size (getSizeFromShapes shapes) width height
            (num_mul (clamp_padding width height padding) (Finite 2))))) scalar"
  "svg_height (shapesToSvg shapes width height padding scalar) =
     num_mul (to_number (fst (snd (resolve_size (getSizeFromShapes shapes) width height
            (num_mul (clamp_padding width height padding) (Finite 2)))))) scalar"
  by (simp_all add: shapesToSvg_def Let_def split: prod.splits)

text \<open>
  Claim C2, as amended. Let the content size of the shapes be (contentWidth,
  contentHeight) and let paddingDouble be twice the clamped padding of the document.
  When the requested width is truthy (not zero, not NaN) and the height is absent or
  zero, the output height is
  \<^verbatim>\<open>(width - paddingDouble) / (contentWidth / contentHeight) + paddingDouble\<close>, the
  content scale is \<^verbatim>\<open>(width - paddingDouble) / contentWidth\<close> and the output width is the
  requested one. When both requested dimensions are truthy, the content scale is the
  minimum of \<^verbatim>\<open>(height - paddingDouble) / contentHeight\<close> and
  \<^verbatim>\<open>(width - paddingDouble) / contentWidth\<close>, the output width and height (the extent
  of the view box) are exactly the requested ones, and the declared \<^verbatim>\<open>width\<close> and
  \<^verbatim>\<open>height\<close> attributes are the requested ones times \<open>scalar\<close>.
\<close>

theorem shapesToSvg_size:
  assumes size: "getSizeFromShapes shapes = (contentWidth, contentHeight)"
    and doc: "doc = shapesToSvg shapes width height padding scalar"
    and pd: "paddingDouble = num_mul (translate doc) (Finite 2)"
  shows "(truthy_opt width \<and> \<not> truthy_opt height \<longrightarrow>
            viewBox_height doc =
              Some (num_add (num_div (num_sub (to_number width) paddingDouble)
                               (num_div contentWidth contentHeight)) paddingDouble)
            \<and> scale doc = num_div (num_sub (to_number width) paddingDouble) contentWidth
            \<and> viewBox_width doc = width)
       \<and> (truthy_opt width \<and> truthy_opt height \<longrightarrow>
            scale doc =
              Math_min (num_div (num_sub (to_number height) paddingDouble) contentHeight)
                       (num_div (num_sub (to_number width) paddingDouble) contentWidth)
            \<and> viewBox_width doc = width \<and> viewBox_height doc = height
            \<and> svg_width doc = num_mul (to_number width) scalar
            \<and> svg_height doc = num_mul (to_number height) scalar)"
proof -
  have "width \<noteq> None" if "truthy_opt width" using that by (cases width) simp_all
  then show ?thesis
    unfolding doc pd shapesToSvg_fields translate_shapesToSvg size
    by (simp add: resolve_size_def Let_def)
qed

lemma size_example:
  "getSizeFromShapes
     [\<lparr>shape_x = Finite 0, shape_y = Finite 0, shape_width = Finite 100, shape_height = Finite 50,
       shape_text = ''ab'', shape_styles = []\<rparr>] = (Finite 100, Finite 50)"
  by (simp add: getSizeFromShapes_def size_step_def MAX_SAFE_INTEGER_def num_gt_def num_sub_def)

theorem shapesToSvg_size_witness:
  "viewBox_height (shapesToSvg
       [\<lparr>shape_x = Finite 0, shape_y = Finite 0, shape_width = Finite 100, shape_height = Finite 50,
         shape_text = ''ab'', shape_styles = []\<rparr>] (Some (Finite 200)) None (Finite 0) (Finite 1))
     = Some (Finite 100)
   \<and> scale (shapesToSvg
       [\<lparr>shape_x = Finite 0, shape_y = Finite 0, shape_width = Finite 100, shape_height = Finite 50,
         shape_text = ''ab'', shape_styles = []\<rparr>] (Some (Finite 200)) None (Finite 0) (Finite 1))
     = Finite 2
   \<and> scale (shapesToSvg
       [\<lparr>shape_x = Finite 0, shape_y = Finite 0, shape_width = Finite 100, shape_height = Finite 50,
         shape_text = ''ab'', shape_styles = []\<rparr>] (Some (Finite 220)) (Some (Finite 80)) (Finite 10) (Finite 1))
     = Finite 1.2
   \<and> viewBox_width (shapesToSvg
       [\<lparr>shape_x = Finite 0, shape_y = Finite 0, shape_width = Finite 100, shape_height = Finite 50,
         shape_text = ''ab'', shape_styles = []\<rparr>] (Some (Finite 220)) (Some (Finite 80)) (Finite 10) (Finite 1))
     = Some (Finite 220)
   \<and> viewBox_height (shapesToSvg
       [\<lparr>shape_x = Finite 0, shape_y = Finite 0, shape_width = Finite 100, shape_height = Finite 50,
         shape_text = ''ab'', shape_styles = []\<rparr>] (Some (Finite 220)) (Some (Finite 80)) (Finite 10) (Finite 1))
     = Some (Finite 80)"
proof -
  let ?S = "[\<lparr>shape_x = Finite 0, shape_y = Finite 0, shape_width = Finite 100, shape_height = Finite 50,
         shape_text = ''ab'', shape_styles = []\<rparr>]"
  let ?d1 = "shapesToSvg ?S (Some (Finite 200)) None (Finite 0) (Finite 1)"
  let ?d2 = "shapesToSvg ?S (Some (Finite 220)) (Some (Finite 80)) (Finite 10) (Finite 1)"
  have t: "truthy_opt (Some (Finite 200))" "\<not> truthy_opt None" "truthy_opt (Some (Finite 220))"
    "truthy_opt (Some (Finite 80))" by simp_all
  have p1: "translate ?d1 = Finite 0" and p2: "translate ?d2 = Finite 10"
    by (simp_all add: translate_shapesToSvg clamp_padding_def Math_min_Finite)
  from t shapesToSvg_size [OF size_example refl refl, of "Some (Finite 200)" None "Finite 0" "Finite 1"]
  have 1: "viewBox_height ?d1 =
              Some (num_add (num_div (num_sub (to_number (Some (Finite 200))) (num_mul (translate ?d1) (Finite 2)))
                               (num_div (Finite 100) (Finite 50))) (num_mul (translate ?d1) (Finite 2)))"
    "scale ?d1 = num_div (num_sub (to_number (Some (Finite 200))) (num_mul (translate ?d1) (Finite 2))) (Finite 100)"
    by blast+
  from t shapesToSvg_size [OF size_example refl refl, of "Some (Finite 220)" "Some (Finite 80)" "Finite 10" "Finite 1"]
  have 2: "scale ?d2 =
              Math_min (num_div (num_sub (to_number (Some (Finite 80))) (num_mul (translate ?d2) (Finite 2))) (Finite 50))
                       (num_div (num_sub (to_number (Some (Finite 220))) (num_mul (translate ?d2) (Finite 2))) (Finite 100))"
    "viewBox_width ?d2 = Some (Finite 220)" "viewBox_height ?d2 = Some (Finite 80)"
    by blast+
  from 1 have "viewBox_height ?d1 = Some (Finite 100)" "scale ?d1 = Finite 2"
    unfolding p1 by (simp_all add: num_sub_def)
  moreover from 2(1) have "scale ?d2 = Finite 1.2"
    unfolding p2 by (simp add: num_sub_def Math_min_Finite)
  ultimately show ?thesis using 2(2,3) by blast
qed

text \<open>
  Claim C2 as first stated fails where a requested dimension is zero or the scalar is not
  1. With width 0 alone no branch assigns the height: it stays undefined and the declared
  height is NaN, where the claim's formula gives 0. With width 200 and height 0 the
  height is computed from the width (100 for a content of 100 by 50), not kept as
  requested. With width 220, height 80 and scalar 2 the declared width is 440.
\<close>

theorem shapesToSvg_size_counterexample:
  "viewBox_height (shapesToSvg
       [\<lparr>shape_x = Finite 0, shape_y = Finite 0, shape_width = Finite 100, shape_height = Finite 50,
         shape_text = ''ab'', shape_styles = []\<rparr>] (Some (Finite 0)) None (Finite 0) (Finite 1)) = None
   \<and> svg_height (shapesToSvg
       [\<lparr>shape_x = Finite 0, shape_y = Finite 0, shape_width = Finite 100, shape_height = Finite 50,
         shape_text = ''ab'', shape_styles = []\<rparr>] (Some (Finite 0)) None (Finite 0) (Finite 1)) = NaN
   \<and> viewBox_height (shapesToSvg
       [\<lparr>shape_x = Finite 0, shape_y = Finite 0, shape_width = Finite 100, shape_height = Finite 50,
         shape_text = ''ab'', shape_styles = []\<rparr>] (Some (Finite 200)) (Some (Finite 0)) (Finite 0) (Finite 1))
     = Some (Finite 100)
   \<and> svg_width (shapesToSvg
       [\<lparr>shape_x = Finite 0, shape_y = Finite 0, shape_width = Finite 100, shape_height = Finite 50,
         shape_text = ''ab'', shape_styles = []\<rparr>] (Some (Finite 220)) (Some (Finite 80)) (Finite 10) (Finite 2))
     = Finite 440"
  unfolding shapesToSvg_fields size_example
  by (simp add: resolve_size_def clamp_padding_def num_sub_def Math_min_Finite)

lemma shapesToSvg_Nil:
  "getSizeFromShapes [] = (Finite (- 9007199254740991), Finite (- 9007199254740991))
   \<and> shapesToSvg [] None None (Finite 0) (Finite 1) =
       \<lparr>svg_width = Finite (- 9007199254740991), svg_height = Finite (- 9007199254740991),
        viewBox_x = Finite 0, viewBox_y = Finite 0,
        viewBox_width = Some (Finite (- 9007199254740991)),
        viewBox_height = Some (Finite (- 9007199254740991)),
        style_text = [], translate = Finite 0, scale = Finite 1, text_nodes = []\<rparr>"
  by (simp add: shapesToSvg_def getSizeFromShapes_def resolve_size_def clamp_padding_def
      MAX_SAFE_INTEGER_def num_sub_def Let_def)


section \<open>The line prober\<close>

lemma never_skips_less:
  "never_skips rects n =
     (\<forall>i<n. 1 \<le> length (rects (i + 1))
        \<and> (\<forall>k. 1 \<le> k \<and> k < length (rects (i + 1)) \<longrightarrow> (\<exists>j<i. length (rects (j + 1)) = k)))"
  unfolding never_skips_def by (simp add: Ball_def Bex_def)

lemma spec_append_at:
  "k < length L \<Longrightarrow>
     spec_append (int (off + k)) c (index_from off L) = index_from off (L[k := L ! k @ [c]])"
proof (induction L arbitrary: off k)
  case Nil
  then show ?case by simp
next
  case (Cons x xs)
  show ?case
  proof (cases k)
    case 0
    then show ?thesis by simp
  next
    case (Suc k')
    with Cons.prems have "k' < length xs" by simp
    from Cons.IH [OF this, of "Suc off"] Suc show ?thesis by simp
  qed
qed

lemma spec_append_end:
  "spec_append (int (off + length L)) c (index_from off L) = index_from off (L @ [[c]])"
proof (induction L arbitrary: off)
  case Nil
  then show ?case by simp
next
  case (Cons x xs)
  from Cons.IH [of "Suc off"] show ?case by simp
qed

lemma upt_add_Suc: "[off..<off + Suc n] = off # [Suc off..<Suc off + n]"
  by (simp add: upt_conv_Cons del: upt_Suc)

lemma index_from_zip: "index_from off L = zip (map int [off..<off + length L]) L"
proof (induction L arbitrary: off)
  case Nil
  then show ?case by simp
next
  case (Cons x xs)
  have "index_from off (x # xs) = (int off, x) # zip (map int [Suc off..<Suc off + length xs]) xs"
    using Cons.IH [of "Suc off"] by simp
  also have "\<dots> = zip (map int (off # [Suc off..<Suc off + length xs])) (x # xs)" by simp
  also have "off # [Suc off..<Suc off + length xs] = [off..<off + length (x # xs)]"
    using upt_add_Suc [of off "length xs"] by simp
  finally show ?case .
qed

lemma item_int_int: "item_int xs (int i) = item xs i"
  by (simp add: item_int_def item_def)

lemma length_index_from: "length (index_from off L) = length L"
  by (induction L arbitrary: off) simp_all

lemma map_index_from:
  "map (\<lambda>(k, b). \<lparr>line_rect = item_int R k, line_text = b\<rparr>) (index_from 0 L) =
   map (\<lambda>(index, ln). \<lparr>line_rect = item R index, line_text = ln\<rparr>) (zip [0..<length L] L)"
  by (simp add: index_from_zip zip_map1 item_int_int split_def)


lemma probe_lines_Suc:
  "probe_lines rects tx (Suc j) =
     add_char (probe_lines rects tx j) (int (length (rects (j + 1))) - 1) (tx ! j)"
  by (simp add: probe_lines_def)

lemma spec_buffers_Suc:
  "spec_buffers rects tx (Suc j) =
     spec_append (int (length (rects (j + 1))) - 1) (tx ! j) (spec_buffers rects tx j)"
  by (simp add: spec_buffers_def)

lemma probe_lines_refine:
  assumes ns: "never_skips rects n"
  shows "j \<le> n \<Longrightarrow>
     spec_buffers rects tx j = index_from 0 (probe_lines rects tx j)
     \<and> [] \<notin> set (probe_lines rects tx j)
     \<and> (\<forall>k. (1 \<le> k \<and> k \<le> length (probe_lines rects tx j)) = (\<exists>i<j. length (rects (i + 1)) = k))"
proof (induction j)
  case 0
  then show ?case by (simp add: probe_lines_def spec_buffers_def)
next
  case (Suc j)
  let ?L = "probe_lines rects tx j"
  let ?c = "length (rects (j + 1))"
  let ?ch = "tx ! j"
  from Suc.prems have jn: "j < n" and "j \<le> n" by simp_all
  from Suc.IH [OF \<open>j \<le> n\<close>] have
    ref: "spec_buffers rects tx j = index_from 0 ?L"
    and ne: "[] \<notin> set ?L"
    and seen: "\<And>k. (1 \<le> k \<and> k \<le> length ?L) = (\<exists>i<j. length (rects (i + 1)) = k)"
    by blast+
  from ns jn have c1: "1 \<le> ?c"
    and below: "\<And>k. 1 \<le> k \<Longrightarrow> k < ?c \<Longrightarrow> \<exists>i<j. length (rects (i + 1)) = k"
    by (auto simp: never_skips_less)
  have le: "?c - 1 \<le> length ?L"
  proof (cases "?c = 1")
    case True
    then show ?thesis by simp
  next
    case False
    with c1 have "1 \<le> ?c - 1" "?c - 1 < ?c" by simp_all
    from below [OF this] seen [of "?c - 1"] show ?thesis by simp
  qed
  from c1 have idx: "int ?c - 1 = int (?c - 1)" by simp
  have seen_new: "(\<exists>i<Suc j. length (rects (i + 1)) = k) = ((\<exists>i<j. length (rects (i + 1)) = k) \<or> k = ?c)" for k
    by (auto simp: less_Suc_eq)
  show ?case
  proof (cases "?c - 1 < length ?L")
    case True
    with ne have nz: "?L ! (?c - 1) \<noteq> []" by (metis nth_mem)
    from True nz have step: "probe_lines rects tx (Suc j) = ?L[?c - 1 := ?L ! (?c - 1) @ [?ch]]"
      unfolding probe_lines_Suc idx by (simp add: add_char_def)
    from spec_append_at [OF True, of 0 ?ch] have
      "spec_buffers rects tx (Suc j) = index_from 0 (probe_lines rects tx (Suc j))"
      unfolding spec_buffers_Suc idx ref step by simp
    moreover have "[] \<notin> set (probe_lines rects tx (Suc j))"
    proof
      assume "[] \<in> set (probe_lines rects tx (Suc j))"
      then have "[] \<in> insert (?L ! (?c - 1) @ [?ch]) (set ?L)"
        unfolding step using set_update_subset_insert by fastforce
      with ne show False by simp
    qed
    moreover have "(1 \<le> k \<and> k \<le> length (probe_lines rects tx (Suc j)))
        = (\<exists>i<Suc j. length (rects (i + 1)) = k)" for k
    proof -
      from True c1 have "1 \<le> ?c \<and> ?c \<le> length ?L" by simp
      then show ?thesis
        unfolding seen_new step using seen [of k] by auto
    qed
    ultimately show ?thesis by blast
  next
    case False
    with le have eq: "?c - 1 = length ?L" by simp
    then have step: "probe_lines rects tx (Suc j) = ?L @ [[?ch]]"
      unfolding probe_lines_Suc idx by (simp add: add_char_def)
    from spec_append_end [of 0 ?L ?ch] have
      "spec_buffers rects tx (Suc j) = index_from 0 (probe_lines rects tx (Suc j))"
      unfolding spec_buffers_Suc idx ref step eq by simp
    moreover have "[] \<notin> set (probe_lines rects tx (Suc j))"
      unfolding step using ne by simp
    moreover have "(1 \<le> k \<and> k \<le> length (probe_lines rects tx (Suc j)))
        = (\<exists>i<Suc j. length (rects (i + 1)) = k)" for k
    proof -
      from eq c1 have "?c = Suc (length ?L)" by simp
      then show ?thesis
        unfolding seen_new step using seen [of k] by auto
    qed
    ultimately show ?thesis by blast
  qed
qed

lemma probe_lines_single:
  assumes one: "\<forall>i<length tx. length (rects (i + 1)) = 1"
  shows "j < length tx \<Longrightarrow> probe_lines rects tx (Suc j) = [take (Suc j) tx]"
proof (induction j)
  case 0
  with one have "length (rects (0 + 1)) = 1" by blast
  with 0 show ?case
    unfolding probe_lines_Suc by (simp add: probe_lines_def add_char_def take_Suc_conv_app_nth)
next
  case (Suc j)
  then have j: "j < length tx" by simp
  from one Suc.prems have c: "length (rects (Suc j + 1)) = 1" by blast
  from j have "take (Suc j) tx \<noteq> []" by (cases tx) simp_all
  with Suc.IH [OF j] c Suc.prems show ?case
    unfolding probe_lines_Suc [of rects tx "Suc j"]
    by (simp add: add_char_def take_Suc_conv_app_nth [of "Suc j"])
qed

lemma getTextNodeLines_one_rect:
  assumes v: "nodeValue textNode = Some tx" and ne: "tx \<noteq> []"
    and one: "\<forall>i<length tx. length (getClientRects textNode (i + 1)) = 1"
  shows "getTextNodeLines textNode =
      [\<lparr>line_rect = Some (hd (getClientRects textNode (length tx))), line_text = tx\<rparr>]"
proof -
  from ne obtain m where m: "length tx = Suc m" by (cases tx) simp_all
  then have "m < length tx" by simp
  from probe_lines_single [OF one this] m
  have L: "probe_lines (getClientRects textNode) tx (length tx) = [tx]" by simp
  from one m have "length (getClientRects textNode (length tx)) = 1" by simp
  then have "item (getClientRects textNode (length tx)) 0 =
      Some (hd (getClientRects textNode (length tx)))"
    by (cases "getClientRects textNode (length tx)") (simp_all add: item_def)
  with v ne L show ?thesis
    by (simp add: getTextNodeLines_def Let_def)
qed

text \<open>
  Claim C1, as amended. For every text node with a non-empty value: when the rectangle
  counts never skip a line (each prefix measures at least one rectangle and at most one
  more than the lines found so far), each character at index \<open>i\<close> is appended to the
  buffer at index (rectangle count of the selection up to \<open>i\<close>) minus one, a buffer being
  created when that index has not been seen, and the result pairs the final rectangle at
  each index with the buffer at that index in ascending order: the code's result is the
  specification's. In particular, when every prefix measures exactly one rectangle (the
  full extent is the last prefix), the result is exactly one line, whose text is the
  entire run and whose rectangle is that one rectangle.
\<close>

theorem getTextNodeLines_probe:
  assumes v: "nodeValue textNode = Some tx" and ne: "tx \<noteq> []"
  shows "(never_skips (getClientRects textNode) (length tx) \<longrightarrow>
            getTextNodeLines textNode = spec_probe textNode)
       \<and> ((\<forall>i<length tx. length (getClientRects textNode (i + 1)) = 1) \<longrightarrow>
            getTextNodeLines textNode =
              [\<lparr>line_rect = Some (hd (getClientRects textNode (length tx))), line_text = tx\<rparr>])"
proof (intro conjI impI)
  assume ns: "never_skips (getClientRects textNode) (length tx)"
  from probe_lines_refine [OF ns order_refl, of tx]
  have "spec_buffers (getClientRects textNode) tx (length tx) =
          index_from 0 (probe_lines (getClientRects textNode) tx (length tx))" by blast
  with v ne show "getTextNodeLines textNode = spec_probe textNode"
    by (simp add: getTextNodeLines_def spec_probe_def Let_def map_index_from)
next
  assume "\<forall>i<length tx. length (getClientRects textNode (i + 1)) = 1"
  with v ne show "getTextNodeLines textNode =
      [\<lparr>line_rect = Some (hd (getClientRects textNode (length tx))), line_text = tx\<rparr>]"
    by (rule getTextNodeLines_one_rect)
qed

lemma probe_lines_0: "probe_lines rects tx 0 = []"
  by (simp add: probe_lines_def)

lemma spec_buffers_0: "spec_buffers rects tx 0 = []"
  by (simp add: spec_buffers_def)

lemma never_skips_wrapped: "never_skips (getClientRects wrapped_node) (Suc (Suc (Suc (Suc 0))))"
  by (auto simp: never_skips_less less_Suc_eq wrapped_node_def)

lemma spec_buffers_wrapped:
  "spec_buffers (getClientRects wrapped_node) ''abcd'' (Suc (Suc (Suc (Suc 0)))) = [(0, ''ab''), (1, ''cd'')]"
  by (simp add: spec_buffers_Suc spec_buffers_0 wrapped_node_def)

lemma spec_buffers_skipping:
  "spec_buffers (getClientRects skipping_node) ''abc'' (Suc (Suc (Suc 0))) = [(0, ''a''), (2, ''bc'')]"
  by (simp add: spec_buffers_Suc spec_buffers_0 skipping_node_def)

lemma probe_lines_skipping:
  "probe_lines (getClientRects skipping_node) ''abc'' (Suc (Suc (Suc 0))) = [''a'', ''b'', ''c'']"
  by (simp add: probe_lines_Suc probe_lines_0 add_char_def skipping_node_def)

lemma node_values:
  "nodeValue wrapped_node = Some ''abcd''" "nodeValue single_line_node = Some ''hello''"
  "nodeValue skipping_node = Some ''abc''"
  "getClientRects wrapped_node e = (if e \<le> 2 then [row 0] else [row 0, row 20])"
  "getClientRects skipping_node e = (if e \<le> 1 then [row 0] else [row 0, row 20, row 40])"
  "getClientRects single_line_node e = [row 0]"
  by (simp_all add: wrapped_node_def single_line_node_def skipping_node_def)

theorem getTextNodeLines_probe_witness:
  "getTextNodeLines wrapped_node =
     [\<lparr>line_rect = Some (row 0), line_text = ''ab''\<rparr>,
      \<lparr>line_rect = Some (row 20), line_text = ''cd''\<rparr>]
   \<and> spec_probe wrapped_node =
     [\<lparr>line_rect = Some (row 0), line_text = ''ab''\<rparr>,
      \<lparr>line_rect = Some (row 20), line_text = ''cd''\<rparr>]
   \<and> getTextNodeLines single_line_node = [\<lparr>line_rect = Some (row 0), line_text = ''hello''\<rparr>]"
proof -
  have ne: "''abcd'' \<noteq> []" "''hello'' \<noteq> []" by simp_all
  have ns: "never_skips (getClientRects wrapped_node) (length ''abcd'')"
    using never_skips_wrapped by simp
  have one: "\<forall>i<length ''hello''. length (getClientRects single_line_node (i + 1)) = 1"
    by (simp add: node_values)
  from getTextNodeLines_probe [OF node_values(1) ne(1)] ns
  have 1: "getTextNodeLines wrapped_node = spec_probe wrapped_node" by blast
  have 2: "spec_probe wrapped_node =
     [\<lparr>line_rect = Some (row 0), line_text = ''ab''\<rparr>,
      \<lparr>line_rect = Some (row 20), line_text = ''cd''\<rparr>]"
    by (simp add: spec_probe_def node_values spec_buffers_wrapped item_int_def)
  from getTextNodeLines_probe [OF node_values(2) ne(2)] one
  have "getTextNodeLines single_line_node =
     [\<lparr>line_rect = Some (hd (getClientRects single_line_node (length ''hello''))),
       line_text = ''hello''\<rparr>]"
    by blast
  then have 3: "getTextNodeLines single_line_node =
      [\<lparr>line_rect = Some (row 0), line_text = ''hello''\<rparr>]"
    by (simp add: node_values)
  from 1 2 3 show ?thesis by simp
qed

text \<open>
  Claim C1 as first stated, for every text run, fails when a count skips a line. A new
  line is pushed at the end of the array, not stored at the line index: for \<^verbatim>\<open>abc\<close>
  with one rectangle for the first prefix and three for the others, the code returns three
  lines (\<^verbatim>\<open>a\<close>, \<^verbatim>\<open>b\<close>, \<^verbatim>\<open>c\<close>), where appending to the buffer at index two gives
  the two lines \<^verbatim>\<open>a\<close> (index 0) and \<^verbatim>\<open>bc\<close> (index 2). It also fails when a
  prefix measures no rectangle: the index is then -1, which is never found in the array,
  so every character becomes a line of its own instead of joining one buffer.
\<close>

theorem getTextNodeLines_probe_counterexample:
  "getTextNodeLines skipping_node =
     [\<lparr>line_rect = Some (row 0), line_text = ''a''\<rparr>,
      \<lparr>line_rect = Some (row 20), line_text = ''b''\<rparr>,
      \<lparr>line_rect = Some (row 40), line_text = ''c''\<rparr>]
   \<and> spec_probe skipping_node =
     [\<lparr>line_rect = Some (row 0), line_text = ''a''\<rparr>,
      \<lparr>line_rect = Some (row 40), line_text = ''bc''\<rparr>]
   \<and> getTextNodeLines unrendered_node =
     [\<lparr>line_rect = None, line_text = ''h''\<rparr>, \<lparr>line_rect = None, line_text = ''i''\<rparr>]
   \<and> spec_probe unrendered_node = [\<lparr>line_rect = None, line_text = ''hi''\<rparr>]"
proof -
  have u: "[0..<Suc (Suc (Suc 0))] = [0, Suc 0, Suc (Suc 0)]" "[0..<Suc (Suc 0)] = [0, Suc 0]"
    by (simp_all add: upt_rec)
  have n: "nodeValue unrendered_node = Some ''hi''" "getClientRects unrendered_node e = []" for e
    by (simp_all add: unrendered_node_def)
  have p: "probe_lines (getClientRects unrendered_node) ''hi'' (Suc (Suc 0)) = [''h'', ''i'']"
    by (simp add: probe_lines_Suc probe_lines_0 add_char_def n)
  have b: "spec_buffers (getClientRects unrendered_node) ''hi'' (Suc (Suc 0)) = [(- 1, ''hi'')]"
    by (simp add: spec_buffers_Suc spec_buffers_0 n)
  have 1: "getTextNodeLines skipping_node =
     [\<lparr>line_rect = Some (row 0), line_text = ''a''\<rparr>,
      \<lparr>line_rect = Some (row 20), line_text = ''b''\<rparr>,
      \<lparr>line_rect = Some (row 40), line_text = ''c''\<rparr>]"
    using u by (simp add: getTextNodeLines_def node_values probe_lines_skipping item_def Let_def)
  have 2: "spec_probe skipping_node =
     [\<lparr>line_rect = Some (row 0), line_text = ''a''\<rparr>,
      \<lparr>line_rect = Some (row 40), line_text = ''bc''\<rparr>]"
    by (simp add: spec_probe_def node_values spec_buffers_skipping item_int_def)
  have 3: "getTextNodeLines unrendered_node =
     [\<lparr>line_rect = None, line_text = ''h''\<rparr>, \<lparr>line_rect = None, line_text = ''i''\<rparr>]"
    using u by (simp add: getTextNodeLines_def n p item_def Let_def)
  have 4: "spec_probe unrendered_node = [\<lparr>line_rect = None, line_text = ''hi''\<rparr>]"
    by (simp add: spec_probe_def n b item_int_def)
  from 1 2 3 4 show ?thesis by blast
qed

text \<open>
  When the layout engine reports no rectangle for any range over a text node that has a
  parent and a value that is not blank, \<^verbatim>\<open>getTextShapes\<close> throws: some character is
  not white space, its line is kept, and its rectangle is undefined.
\<close>

lemma sequence_Inl: "sequence rs = Inl e \<Longrightarrow> Inl e \<in> set rs"
  by (induction rs rule: sequence.induct) (auto split: sum.splits)

lemma sequence_first_Inl: "rs \<noteq> [] \<Longrightarrow> \<forall>r \<in> set rs. r = Inl e \<Longrightarrow> sequence rs = Inl e"
  by (cases rs) auto

lemma probe_lines_no_rects:
  "j \<le> length tx \<Longrightarrow> probe_lines (\<lambda>e. []) tx j = map (\<lambda>c. [c]) (take j tx)"
proof (induction j)
  case 0
  then show ?case by (simp add: probe_lines_0)
next
  case (Suc j)
  then show ?case
    by (simp add: probe_lines_Suc add_char_def take_Suc_conv_app_nth)
qed

lemma trim_all_white: "\<forall>c \<in> set s. is_white_space c \<Longrightarrow> trim s = []"
  by (auto simp: trim_def dest: set_dropWhileD)

lemma trim_single: "trim [c] = [] \<longleftrightarrow> is_white_space c"
  by (simp add: trim_def)

lemma getTextShapes_no_rects_throws:
  assumes v: "nodeValue n = Some tx" and p: "parentNode n = Some st"
    and vis: "trim tx \<noteq> []" and none: "\<forall>e. getClientRects n e = []"
  shows "getTextShapes n = Inl TypeError"
proof -
  from none have r: "getClientRects n = (\<lambda>e. [])" by auto
  from vis have ne: "tx \<noteq> []" by (auto simp: trim_def)
  from vis obtain c where c: "c \<in> set tx" "\<not> is_white_space c"
    using trim_all_white by blast
  have lines: "getTextNodeLines n = map (\<lambda>c. \<lparr>line_rect = None, line_text = [c]\<rparr>) tx"
  proof -
    have "map (\<lambda>(index, ln). \<lparr>line_rect = item [] index, line_text = ln\<rparr>) (zip ixs ls)
          = map (\<lambda>ln. \<lparr>line_rect = None, line_text = ln\<rparr>) ls" if "length ixs = length ls"
      for ixs :: "nat list" and ls :: "string list"
      using that by (induction ixs ls rule: list_induct2) (simp_all add: item_def)
    then show ?thesis
      using v ne by (simp add: getTextNodeLines_def r probe_lines_no_rects Let_def comp_def)
  qed
  let ?kept = "filter (\<lambda>ln. 0 < length (trim (line_text ln))) (getTextNodeLines n)"
  from c have "\<lparr>line_rect = None, line_text = [c]\<rparr> \<in> set ?kept"
    by (simp add: lines trim_single image_iff) 
  then have k: "?kept \<noteq> []" by (metis empty_iff list.set(1))
  have "\<forall>r \<in> set (map (\<lambda>ln. toShape (line_rect ln) st (line_text ln)) ?kept). r = Inl TypeError"
    by (auto simp: lines toShape_def)
  with k have "sequence (map (\<lambda>ln. toShape (line_rect ln) st (line_text ln)) ?kept) = Inl TypeError"
    by (intro sequence_first_Inl) simp_all
  with v p ne vis show ?thesis by (simp add: getTextShapes_def)
qed

text \<open>
  Claim C5 asks that a text node for which the layout engine reports no rectangle give
  zero lines and never an error. In the code the line index is then -1 for every
  character, each character is pushed as a line of its own with an undefined rectangle,
  and \<^verbatim>\<open>toShape\<close> throws a TypeError on reading \<^verbatim>\<open>rect.x\<close>; the error reaches the
  caller of the exported function.
\<close>

theorem getTextShapes_no_rects:
  "getTextNodeLines unrendered_node =
     [\<lparr>line_rect = None, line_text = ''h''\<rparr>, \<lparr>line_rect = None, line_text = ''i''\<rparr>]
   \<and> getTextShapes unrendered_node = Inl TypeError
   \<and> snapText (\<lambda>q. None)
        (Element (Node 1 None None (\<lambda>e. []) (row 0) [unrendered_node])) no_options = Inl TypeError"
proof -
  have p: "probe_lines (getClientRects unrendered_node) ''hi'' (Suc (Suc 0)) = [''h'', ''i'']"
    by (simp add: probe_lines_Suc probe_lines_0 add_char_def unrendered_node_def)
  have v: "nodeValue unrendered_node = Some ''hi''" "parentNode unrendered_node = Some ignored_style"
    "getClientRects unrendered_node e = []" "nodeType unrendered_node = 3" for e
    by (simp_all add: unrendered_node_def)
  have l: "getTextNodeLines unrendered_node =
     [\<lparr>line_rect = None, line_text = ''h''\<rparr>, \<lparr>line_rect = None, line_text = ''i''\<rparr>]"
    by (simp add: getTextNodeLines_def v p item_def upt_rec Let_def)
  have tr: "trim ''hi'' = ''hi''" "trim ''h'' = ''h''" "trim ''i'' = ''i''"
    by (simp_all add: trim_def is_white_space_def)
  have s: "getTextShapes unrendered_node = Inl TypeError"
    by (simp add: getTextShapes_def v l tr toShape_def)
  have f: "format_test ''canvas''" by (simp add: format_test_def)
  have g: "getShapes unrendered_node (row 0) = Inl TypeError"
    using s by (simp add: unrendered_node_def getShape_def)
  have "snapText (\<lambda>q. None) (Element (Node 1 None None (\<lambda>e. []) (row 0) [unrendered_node])) no_options
      = Inl TypeError"
    by (simp add: snapText_def no_options_def f getShape_def g)
  with l s show ?thesis by blast
qed

section \<open>The exported function\<close>

text \<open>
  Claim C3 asks that an empty list of shapes give an empty document of size zero or of
  the requested size, without negative dimensions. The code has no case for the empty
  list: the content size is \<^verbatim>\<open>0 - Number.MAX_SAFE_INTEGER\<close> in both directions, and with
  no requested size the document, though empty, declares that negative width and height.
  An element without text reaches this through the exported function.
\<close>

theorem shapesToSvg_empty:
  "getSizeFromShapes [] = (Finite (- 9007199254740991), Finite (- 9007199254740991))
   \<and> shapesToSvg [] None None (Finite 0) (Finite 1) =
       \<lparr>svg_width = Finite (- 9007199254740991), svg_height = Finite (- 9007199254740991),
        viewBox_x = Finite 0, viewBox_y = Finite 0,
        viewBox_width = Some (Finite (- 9007199254740991)),
        viewBox_height = Some (Finite (- 9007199254740991)),
        style_text = [], translate = Finite 0, scale = Finite 1, text_nodes = []\<rparr>
   \<and> snapText (\<lambda>q. None) (Element empty_element) (no_options\<lparr>opt_format := Some ''svg''\<rparr>) =
       Inr (SvgElement (shapesToSvg [] None None (Finite 0) (Finite 1)))"
proof -
  have f: "format_test ''svg''" by (simp add: format_test_def)
  have n: "normalizeShapes [] = []" by (simp add: normalizeShapes_def)
  have "snapText (\<lambda>q. None) (Element empty_element) (no_options\<lparr>opt_format := Some ''svg''\<rparr>) =
       Inr (SvgElement (shapesToSvg [] None None (Finite 0) (Finite 1)))"
    by (simp add: snapText_def no_options_def empty_element_def f getShape_def n)
  with shapesToSvg_Nil show ?thesis by blast
qed

text \<open>
  The only error the traversal can raise is the TypeError. A format in which none of the
  four words occurs is refused for every element, whatever its tree; a format that
  passes the test never gives the invalid-format error.
\<close>

lemma toShape_Inl: "toShape r st t = Inl e \<Longrightarrow> e = TypeError"
  by (auto simp: toShape_def split: option.splits)

lemma getTextShapes_Inl: "getTextShapes n = Inl e \<Longrightarrow> e = TypeError"
  by (auto simp: getTextShapes_def split: option.splits if_splits dest!: sequence_Inl
      dest: toShape_Inl [OF sym])

lemma getShape_Inl: "getShape n off = Inl e \<Longrightarrow> e = TypeError"
  by (auto simp: getShape_def split: if_splits sum.splits dest: getTextShapes_Inl)

lemma getShapes_Inl: "getShapes n off = Inl e \<Longrightarrow> e = TypeError"
proof (induction n off rule: getShapes.induct)
  case (1 ty v p cr br nodes offset)
  show ?case
  proof (cases "getShape (Node ty v p cr br nodes) offset")
    case (Inl e')
    with "1.prems" have "e' = e" by simp
    with Inl show ?thesis by (auto dest: getShape_Inl)
  next
    case (Inr own)
    with "1.prems" have "sequence (map (\<lambda>n. getShapes n offset) nodes) = Inl e"
      by (simp split: sum.splits)
    then have "Inl e \<in> set (map (\<lambda>n. getShapes n offset) nodes)" by (rule sequence_Inl)
    then obtain c where "c \<in> set nodes" "getShapes c offset = Inl e" by auto
    with "1.IH" Inr show ?thesis by auto
  qed
qed

lemma snapText_refuses:
  "opt_format opts = Some f \<Longrightarrow> \<not> format_test f \<Longrightarrow> nodeType n = 1 \<Longrightarrow>
     snapText q (Element n) opts = Inl (InvalidFormat f)"
  by (simp add: snapText_def)

lemma snapText_accepts:
  "opt_format opts = Some f \<Longrightarrow> format_test f \<Longrightarrow> snapText q t opts \<noteq> Inl (InvalidFormat f')"
  by (auto simp: snapText_def Let_def split: target.splits option.splits sum.splits if_splits
      dest: getShapes_Inl)

lemma getShapes_leaf: "childNodes n = [] \<Longrightarrow> getShapes n offset = getShape n offset"
  by (cases n) (simp split: sum.splits)

lemma getShapes_text_element:
  "getShapes text_element (row 0) =
     Inr [\<lparr>shape_x = Finite 0, shape_y = Finite 0, shape_width = Finite 100, shape_height = Finite 20,
           shape_text = ''hello'', shape_styles = []\<rparr>]"
proof -
  have l: "getTextNodeLines single_line_node = [\<lparr>line_rect = Some (row 0), line_text = ''hello''\<rparr>]"
    using getTextNodeLines_one_rect [of single_line_node "''hello''"]
    by (simp add: node_values)
  have st: "toShape_styles ignored_style = []"
    by (rule toShape_styles_default) (simp add: RelevantShapeStyles_def ignored_style_def)
  have tr: "trim ''hello'' = ''hello''" by (simp add: trim_def is_white_space_def)
  have v: "nodeValue single_line_node = Some ''hello''" "parentNode single_line_node = Some ignored_style"
    "nodeType single_line_node = 3"
    by (simp_all add: single_line_node_def)
  have s: "getTextShapes single_line_node =
     Inr [\<lparr>shape_x = Finite 0, shape_y = Finite 0, shape_width = Finite 100, shape_height = Finite 20,
           shape_text = ''hello'', shape_styles = []\<rparr>]"
    by (simp add: getTextShapes_def v l tr toShape_def st row_def)
  have "getShape single_line_node (row 0) =
     Inr [\<lparr>shape_x = Finite 0, shape_y = Finite 0, shape_width = Finite 100, shape_height = Finite 20,
           shape_text = ''hello'', shape_styles = []\<rparr>]"
    by (simp add: getShape_def v s row_def num_sub_def)
  moreover have "childNodes single_line_node = []" by (simp add: single_line_node_def)
  ultimately have g: "getShapes single_line_node (row 0) =
     Inr [\<lparr>shape_x = Finite 0, shape_y = Finite 0, shape_width = Finite 100, shape_height = Finite 20,
           shape_text = ''hello'', shape_styles = []\<rparr>]"
    by (simp add: getShapes_leaf)
  show ?thesis
    by (simp add: text_element_def getShape_def g)
qed

text \<open>
  Claim C4 asks that every format other than \<^verbatim>\<open>svg\<close>, \<^verbatim>\<open>canvas\<close>, \<^verbatim>\<open>img\<close> and
  \<^verbatim>\<open>blob\<close> be refused with the invalid-format error. The four formats pass the test and
  \<^verbatim>\<open>png\<close> is refused; but the regular expression is not anchored, so a format that
  merely contains one of the four words, such as \<^verbatim>\<open>svgz\<close>, passes the test too: the
  tree is traversed, the document is built, no branch matches the format, and the
  function returns \<^verbatim>\<open>undefined\<close> without an error.
\<close>

theorem snapText_format_unanchored:
  "format_test ''svg'' \<and> format_test ''canvas'' \<and> format_test ''img'' \<and> format_test ''blob''
   \<and> \<not> format_test ''png''
   \<and> snapText (\<lambda>q. None) (Element text_element) (no_options\<lparr>opt_format := Some ''png''\<rparr>) =
       Inl (InvalidFormat ''png'')
   \<and> format_test ''svgz''
   \<and> snapText (\<lambda>q. None) (Element text_element) (no_options\<lparr>opt_format := Some ''svgz''\<rparr>) =
       Inr Undefined"
proof -
  have f: "format_test ''svg''" "format_test ''canvas''" "format_test ''img''" "format_test ''blob''"
    "\<not> format_test ''png''" "format_test ''svgz''"
    by (simp_all add: format_test_def)
  have n: "nodeType text_element = 1" "getBoundingClientRect text_element = row 0"
    by (simp_all add: text_element_def)
  have "snapText (\<lambda>q. None) (Element text_element) (no_options\<lparr>opt_format := Some ''png''\<rparr>) =
       Inl (InvalidFormat ''png'')"
    by (simp add: snapText_def no_options_def n f)
  moreover have "snapText (\<lambda>q. None) (Element text_element) (no_options\<lparr>opt_format := Some ''svgz''\<rparr>) =
       Inr Undefined"
    by (simp add: snapText_def no_options_def n f getShapes_text_element Let_def)
  ultimately show ?thesis using f by blast
qed


end
